theory Spec2Isabelle
  imports Main "HOL-Library.Word" "HOL-Library.Char_ord" "HOL-Library.List_Lexorder"
begin

unbundle bit_operations_syntax

section \<open>Values, documents and errors\<close>

text \<open>
  A JavaScript value as the storage engine sees it. Numbers are IEEE-754 doubles, kept as
  their 64-bit pattern (what \<^verbatim>\<open>buf.writeDoubleBE\<close> writes); a \<^verbatim>\<open>Date\<close> carries its
  epoch milliseconds; an object is the list of its own enumerable properties in the
  order \<^verbatim>\<open>Object.keys\<close> enumerates them. An absent property (\<^verbatim>\<open>undefined\<close>) is
  \<open>None\<close> at the place where the property is read. Strings are lists of code units and
  compare lexicographically, code unit by code unit, as JavaScript strings do. \<open>JFun\<close>
  is a built-in function object, named by the prototype member it is; no parsed JSON
  text holds one, it is only met as the result of reading an inherited property.
\<close>

datatype jsval =
    JNull
  | JBool bool
  | JNum "64 word"
  | JStr string
  | JDate int
  | JArr "jsval list"
  | JObj "(string \<times> jsval) list"
  | JFun string

type_synonym document = "(string \<times> jsval) list"

text \<open>
  The thrown values: \<^verbatim>\<open>DocumentStoreError(code, message, codeName?)\<close>,
  \<^verbatim>\<open>IndexError(code, message)\<close>, the plain \<^verbatim>\<open>Error\<close>, and the \<^verbatim>\<open>TypeError\<close> the
  run time throws when \<^verbatim>\<open>Object.keys\<close> is given \<open>null\<close>. Messages are not modelled.
\<close>

datatype error =
    DocumentStoreError nat "string option"
  | IndexError nat
  | Error
  | TypeError

definition BadValue :: nat where "BadValue = 2"
definition InvalidLength :: nat where "InvalidLength = 21"
definition InvalidNamespace :: nat where "InvalidNamespace = 73"
definition DuplicateKey :: nat where "DuplicateKey = 11000"
definition DocumentTooLarge :: nat where "DocumentTooLarge = 10334"

text \<open>
  What the run-time library supplies and the repository does not define: the text of
  \<^verbatim>\<open>JSON.stringify\<close>, the coercions \<^verbatim>\<open>Number(x)\<close> and \<^verbatim>\<open>String(x)\<close>, the
  double-precision sum, \<^verbatim>\<open>Date.prototype.toISOString\<close>, the clock, the random
  source behind \<^verbatim>\<open>generateId\<close>, and the prototypes: \<open>inherited v key\<close> is what the
  prototype chain of \<open>v\<close> gives for a key that is no own enumerable property of \<open>v\<close>
  (a member of \<^verbatim>\<open>Object.prototype\<close> or \<^verbatim>\<open>Array.prototype\<close>, the \<^verbatim>\<open>length\<close> of an
  array), \<open>None\<close> when it gives nothing. They are parameters of the model.
\<close>

record platform =
  json_stringify :: "jsval \<Rightarrow> string"
  to_number :: "jsval \<Rightarrow> 64 word"
  to_string :: "jsval \<Rightarrow> string"
  double_add :: "64 word \<Rightarrow> 64 word \<Rightarrow> 64 word"
  to_iso_string :: "int \<Rightarrow> string"
  date_now :: nat
  fresh_id :: "nat \<Rightarrow> string"
  inherited :: "jsval \<Rightarrow> string \<Rightarrow> jsval option"

section \<open>String primitives\<close>

fun indexOfAux :: "char \<Rightarrow> string \<Rightarrow> nat \<Rightarrow> nat option" where
  "indexOfAux c [] i = None"
| "indexOfAux c (x # xs) i = (if x = c then Some i else indexOfAux c xs (Suc i))"

definition indexOf :: "string \<Rightarrow> char \<Rightarrow> nat \<Rightarrow> nat option" where
  "indexOf s c from = indexOfAux c (drop from s) from"

fun lastIndexOfAux :: "char \<Rightarrow> string \<Rightarrow> nat \<Rightarrow> nat option \<Rightarrow> nat option" where
  "lastIndexOfAux c [] i r = r"
| "lastIndexOfAux c (x # xs) i r = lastIndexOfAux c xs (Suc i) (if x = c then Some i else r)"

definition lastIndexOf :: "string \<Rightarrow> char \<Rightarrow> nat option" where
  "lastIndexOf s c = lastIndexOfAux c s 0 None"

definition substring :: "string \<Rightarrow> nat \<Rightarrow> nat \<Rightarrow> string" where
  "substring s a b = take (max a b - min a b) (drop (min a b) s)"

definition substringFrom :: "string \<Rightarrow> nat \<Rightarrow> string" where
  "substringFrom s a = drop a s"

definition padStart :: "nat \<Rightarrow> char \<Rightarrow> string \<Rightarrow> string" where
  "padStart k c s = replicate (k - length s) c @ s"

definition hexDigit :: "nat \<Rightarrow> char" where
  "hexDigit d = ''0123456789abcdef'' ! d"

fun toString16 :: "nat \<Rightarrow> string" where
  "toString16 n = (if n < 16 then [hexDigit n] else toString16 (n div 16) @ [hexDigit (n mod 16)])"

declare toString16.simps [simp del]

section \<open>Key encoding\<close>

definition IDX_ID_SEP :: char where
  "IDX_ID_SEP = CHR 0x1F"

definition encodeDocKey :: "string \<Rightarrow> string \<Rightarrow> string" where
  "encodeDocKey collection ident = ''doc:'' @ collection @ '':'' @ ident"

definition encodeMetaKey :: "string \<Rightarrow> string" where
  "encodeMetaKey collection = ''meta:collection:'' @ collection"

definition docPrefix :: "string \<Rightarrow> string" where
  "docPrefix collection = ''doc:'' @ collection @ '':''"

definition idxPrefix :: "string \<Rightarrow> string \<Rightarrow> string" where
  "idxPrefix collection field = ''idx:'' @ collection @ '':'' @ field @ '':''"

subsection \<open>Doubles\<close>

definition dsign :: "64 word \<Rightarrow> bool" where
  "dsign n = (2 ^ 63 \<le> unat n)"

definition dexp :: "64 word \<Rightarrow> nat" where
  "dexp n = (unat n div 2 ^ 52) mod 2048"

definition dmant :: "64 word \<Rightarrow> nat" where
  "dmant n = unat n mod 2 ^ 52"

definition isNaN :: "64 word \<Rightarrow> bool" where
  "isNaN n = (dexp n = 2047 \<and> dmant n \<noteq> 0)"

definition posInfinity :: "64 word" where
  "posInfinity = 0x7FF0000000000000"

definition negInfinity :: "64 word" where
  "negInfinity = 0xFFF0000000000000"

definition isFinite :: "64 word \<Rightarrow> bool" where
  "isFinite n = (dexp n \<noteq> 2047)"

text \<open>
  The magnitude of a double from its low 63 bits, in units of \<open>2 ^ -1074\<close> (the smallest
  subnormal), so that it is a natural number: \<open>m\<close> for a subnormal, \<open>(2 ^ 52 + m) * 2 ^ (e - 1)\<close>
  for biased exponent \<open>e \<ge> 1\<close>. \<open>dval\<close> is the signed value in the same unit; two finite
  doubles compare numerically as their \<open>dval\<close>s do, and both zeros have \<open>dval\<close> 0.
\<close>

definition dmagnitude :: "nat \<Rightarrow> nat" where
  "dmagnitude x =
     (let e = x div 2 ^ 52; m = x mod 2 ^ 52
      in if e = 0 then m else (2 ^ 52 + m) * 2 ^ (e - 1))"

definition dval :: "64 word \<Rightarrow> int" where
  "dval n = (if dsign n then - int (dmagnitude (unat n mod 2 ^ 63))
             else int (dmagnitude (unat n mod 2 ^ 63)))"

definition encodeNumber :: "64 word \<Rightarrow> string" where
  "encodeNumber n =
     (if isNaN n then ''2:N''
      else if n = posInfinity then ''2:Z''
      else if n = negInfinity then ''2:A''
      else
        let high = (ucast (drop_bit 32 n) :: 32 word);
            low = (ucast n :: 32 word)
        in if 0 \<le> dval n then
             let h = high OR 0x80000000
             in ''2:'' @ padStart 8 CHR ''0'' (toString16 (unat h))
                      @ padStart 8 CHR ''0'' (toString16 (unat low))
           else
             let h = NOT high; l = NOT low
             in ''2:'' @ padStart 8 CHR ''0'' (toString16 (unat h))
                      @ padStart 8 CHR ''0'' (toString16 (unat l)))"

text \<open>
  \<^verbatim>\<open>Math.floor(ms / 0x100000000) >>> 0\<close> and \<^verbatim>\<open>(ms & 0xFFFFFFFF) >>> 0\<close>: both
  reduce the integer modulo \<open>2 ^ 32\<close>.
\<close>

definition encodeDate :: "int \<Rightarrow> string" where
  "encodeDate ms =
     (let high = nat ((ms div 2 ^ 32) mod 2 ^ 32);
          low = nat (ms mod 2 ^ 32)
      in ''4:'' @ padStart 8 CHR ''0'' (toString16 high) @ padStart 8 CHR ''0'' (toString16 low))"

text \<open>
  \<^verbatim>\<open>JSON.stringify(value)\<close> is \<^verbatim>\<open>undefined\<close>, not a text, for a function; a template
  string writes \<^verbatim>\<open>undefined\<close> as the word.
\<close>

definition jsonStringify :: "platform \<Rightarrow> jsval \<Rightarrow> string option" where
  "jsonStringify P v = (case v of JFun name \<Rightarrow> None | _ \<Rightarrow> Some (json_stringify P v))"

definition templateText :: "string option \<Rightarrow> string" where
  "templateText s = (case s of None \<Rightarrow> ''undefined'' | Some t \<Rightarrow> t)"

fun encodeValue :: "platform \<Rightarrow> jsval \<Rightarrow> error + string" where
  "encodeValue P JNull = Inr ''0:''"
| "encodeValue P (JBool b) = Inr (''1:'' @ (if b then ''1'' else ''0''))"
| "encodeValue P (JNum n) = Inr (encodeNumber n)"
| "encodeValue P (JStr s) = (if length s > 1024 then Inl Error else Inr (''3:'' @ s))"
| "encodeValue P (JDate ms) = Inr (encodeDate ms)"
| "encodeValue P v = Inr (''3:'' @ templateText (jsonStringify P v))"

definition encodeIdxKey :: "platform \<Rightarrow> string \<Rightarrow> string \<Rightarrow> jsval \<Rightarrow> string \<Rightarrow> error + string" where
  "encodeIdxKey P collection field v ident =
     (case encodeValue P v of
        Inl e \<Rightarrow> Inl e
      | Inr encodedValue \<Rightarrow>
          Inr (''idx:'' @ collection @ '':'' @ field @ '':'' @ encodedValue @ [IDX_ID_SEP] @ ident))"

record idxKey =
  ik_collection :: string
  ik_field :: string
  ik_encodedValue :: string
  ik_id :: string

definition decodeIdxKey :: "string \<Rightarrow> idxKey option" where
  "decodeIdxKey key =
     (case indexOf key CHR '':'' 0 of
        None \<Rightarrow> None
      | Some firstColon \<Rightarrow>
          if substring key 0 firstColon \<noteq> ''idx'' then None
          else (case indexOf key CHR '':'' (firstColon + 1) of
            None \<Rightarrow> None
          | Some secondColon \<Rightarrow>
              (case indexOf key CHR '':'' (secondColon + 1) of
                 None \<Rightarrow> None
               | Some thirdColon \<Rightarrow>
                   let collection = substring key (firstColon + 1) secondColon;
                       field = substring key (secondColon + 1) thirdColon;
                       rest = substringFrom key (thirdColon + 1)
                   in (case lastIndexOf rest IDX_ID_SEP of
                         None \<Rightarrow> None
                       | Some sepIdx \<Rightarrow>
                           Some \<lparr> ik_collection = collection, ik_field = field,
                                  ik_encodedValue = substring rest 0 sepIdx,
                                  ik_id = substringFrom rest (sepIdx + 1) \<rparr>))))"

section \<open>Input sanitization\<close>

text \<open>
  \<^verbatim>\<open>sanitizeDocument(doc, depth)\<close>. The loop over \<^verbatim>\<open>Object.keys(doc)\<close> is
  \<open>sanitizeProps\<close> for an object and \<open>sanitizeElems\<close> for an array (reached as an
  array element; its keys are indices, never dangerous); \<open>sanitizeValue\<close> is the
  body's test of one property value and \<open>sanitizeItems\<close> the inner loop over the items
  of an array value, which runs at \<open>depth + 1\<close>. Given \<open>null\<close>,
  \<^verbatim>\<open>Object.keys\<close> throws a \<^verbatim>\<open>TypeError\<close>; a number, a boolean, a
  \<^verbatim>\<open>Date\<close> or a function has no keys, and the index keys of a string lead to
  one-character strings, so the loop finds nothing in them.
\<close>

definition DANGEROUS_KEYS :: "string list" where
  "DANGEROUS_KEYS = [''__proto__'', ''constructor'', ''prototype'']"

fun sanitizeDocument :: "jsval \<Rightarrow> nat \<Rightarrow> error + unit"
  and sanitizeProps :: "(string \<times> jsval) list \<Rightarrow> nat \<Rightarrow> error + unit"
  and sanitizeElems :: "jsval list \<Rightarrow> nat \<Rightarrow> error + unit"
  and sanitizeValue :: "jsval \<Rightarrow> nat \<Rightarrow> error + unit"
  and sanitizeItems :: "jsval list \<Rightarrow> nat \<Rightarrow> error + unit"
where
  "sanitizeDocument doc depth =
     (if depth > 20 then Inl (DocumentStoreError DocumentTooLarge None)
      else case doc of
             JObj props \<Rightarrow> sanitizeProps props depth
           | JArr elems \<Rightarrow> sanitizeElems elems depth
           | JNull \<Rightarrow> Inl TypeError
           | _ \<Rightarrow> Inr ())"
| "sanitizeProps [] depth = Inr ()"
| "sanitizeProps ((key, val) # rest) depth =
     (if key \<in> set DANGEROUS_KEYS then Inl (DocumentStoreError BadValue (Some ''BadValue''))
      else case sanitizeValue val depth of
             Inl e \<Rightarrow> Inl e
           | Inr _ \<Rightarrow> sanitizeProps rest depth)"
| "sanitizeElems [] depth = Inr ()"
| "sanitizeElems (val # rest) depth =
     (case sanitizeValue val depth of
        Inl e \<Rightarrow> Inl e
      | Inr _ \<Rightarrow> sanitizeElems rest depth)"
| "sanitizeValue (JObj props) depth = sanitizeDocument (JObj props) (depth + 1)"
| "sanitizeValue (JArr items) depth = sanitizeItems items (depth + 1)"
| "sanitizeValue v depth = Inr ()"
| "sanitizeItems [] depth1 = Inr ()"
| "sanitizeItems (item # rest) depth1 =
     (case (case item of
              JObj props \<Rightarrow> sanitizeDocument item depth1
            | JArr elems \<Rightarrow> sanitizeDocument item depth1
            | _ \<Rightarrow> Inr ()) of
        Inl e \<Rightarrow> Inl e
      | Inr _ \<Rightarrow> sanitizeItems rest depth1)"

text \<open>
  The object/array nesting depth of a value: \<open>height\<close> counts the objects and arrays
  along the longest chain of containment, the value itself included, and the top level
  is depth 0, as the \<^verbatim>\<open>depth = 0\<close> of the first call is. \<open>objectDepth\<close> is the same
  depth counted in objects alone: an array adds no level. \<open>noDangerousKeys\<close> says that
  no object anywhere in the value has a key of the dangerous set.
\<close>

fun height :: "jsval \<Rightarrow> nat"
  and heightProps :: "(string \<times> jsval) list \<Rightarrow> nat"
  and heightElems :: "jsval list \<Rightarrow> nat"
where
  "height (JObj props) = Suc (heightProps props)"
| "height (JArr elems) = Suc (heightElems elems)"
| "height v = 0"
| "heightProps [] = 0"
| "heightProps ((key, val) # rest) = max (height val) (heightProps rest)"
| "heightElems [] = 0"
| "heightElems (val # rest) = max (height val) (heightElems rest)"

definition nestingDepth :: "jsval \<Rightarrow> nat" where
  "nestingDepth doc = height doc - 1"

fun objectHeight :: "jsval \<Rightarrow> nat"
  and objectHeightProps :: "(string \<times> jsval) list \<Rightarrow> nat"
  and objectHeightElems :: "jsval list \<Rightarrow> nat"
where
  "objectHeight (JObj props) = Suc (objectHeightProps props)"
| "objectHeight (JArr elems) = objectHeightElems elems"
| "objectHeight v = 0"
| "objectHeightProps [] = 0"
| "objectHeightProps ((key, val) # rest) = max (objectHeight val) (objectHeightProps rest)"
| "objectHeightElems [] = 0"
| "objectHeightElems (val # rest) = max (objectHeight val) (objectHeightElems rest)"

definition objectDepth :: "jsval \<Rightarrow> nat" where
  "objectDepth doc = objectHeight doc - 1"

fun noDangerousKeys :: "jsval \<Rightarrow> bool"
  and noDangerousKeysProps :: "(string \<times> jsval) list \<Rightarrow> bool"
  and noDangerousKeysElems :: "jsval list \<Rightarrow> bool"
where
  "noDangerousKeys (JObj props) = noDangerousKeysProps props"
| "noDangerousKeys (JArr elems) = noDangerousKeysElems elems"
| "noDangerousKeys v = True"
| "noDangerousKeysProps [] = True"
| "noDangerousKeysProps ((key, val) # rest) =
     (key \<notin> set DANGEROUS_KEYS \<and> noDangerousKeys val \<and> noDangerousKeysProps rest)"
| "noDangerousKeysElems [] = True"
| "noDangerousKeysElems (val # rest) = (noDangerousKeys val \<and> noDangerousKeysElems rest)"

fun nested :: "nat \<Rightarrow> jsval" where
  "nested 0 = JObj []"
| "nested (Suc n) = JObj [(''a'', nested n)]"

definition dangerousDeep :: jsval where
  "dangerousDeep = JObj [(''constructor'', JBool True), (''a'', nested 20)]"

fun arrays :: "nat \<Rightarrow> jsval" where
  "arrays 0 = JArr []"
| "arrays (Suc n) = JArr [arrays n]"

definition arrayDeep :: jsval where
  "arrayDeep = JObj [(''a'', arrays 40)]"


section \<open>Query planner\<close>

record IndexDefinition =
  ix_name :: string
  ix_field :: string
  ix_unique :: bool

datatype planType = IndexScan | CollectionScan

record QueryPlan =
  qp_type :: planType
  qp_indexField :: "string option"
  qp_indexName :: "string option"
  qp_startKey :: "string option"
  qp_endKey :: "string option"
  qp_needsPostFilter :: bool
  qp_estimatedCost :: nat

fun decimal :: "nat \<Rightarrow> string" where
  "decimal n = (if n < 10 then [''0123456789'' ! n] else decimal (n div 10) @ [''0123456789'' ! (n mod 10)])"

declare decimal.simps [simp del]

definition ownEntries :: "jsval \<Rightarrow> (string \<times> jsval) list" where
  "ownEntries v =
     (case v of
        JObj props \<Rightarrow> props
      | JArr elems \<Rightarrow> zip (map decimal [0..<length elems]) elems
      | JStr s \<Rightarrow> zip (map decimal [0..<length s]) (map (\<lambda>c. JStr [c]) s)
      | _ \<Rightarrow> [])"

definition getProperty :: "jsval \<Rightarrow> string \<Rightarrow> jsval option" where
  "getProperty v key = map_of (ownEntries v) key"

text \<open>
  The property read \<^verbatim>\<open>v[key]\<close> under a key the caller chose: the own property when
  there is one, otherwise what the prototype chain gives. The reads under the fixed
  names \<^verbatim>\<open>_id\<close>, \<^verbatim>\<open>$and\<close>, \<^verbatim>\<open>$or\<close> and of the comparison operators are reads of
  own properties: no prototype has a member of these names.
\<close>

definition readProperty :: "platform \<Rightarrow> jsval \<Rightarrow> string \<Rightarrow> jsval option" where
  "readProperty P v key =
     (case getProperty v key of
        Some w \<Rightarrow> Some w
      | None \<Rightarrow> inherited P v key)"

definition startsWithDollar :: "string \<Rightarrow> bool" where
  "startsWithDollar s = (case s of [] \<Rightarrow> False | c # _ \<Rightarrow> c = CHR ''$'')"

definition computeIndexRange ::
  "platform \<Rightarrow> string \<Rightarrow> string \<Rightarrow> (string \<times> jsval) list \<Rightarrow> error + (string \<times> string)" where
  "computeIndexRange P collection field operator =
     (let prefix = idxPrefix collection field in
      case map_of operator ''$eq'' of
        Some v \<Rightarrow>
          (case encodeValue P v of
             Inl e \<Rightarrow> Inl e
           | Inr enc \<Rightarrow> Inr (prefix @ enc @ [IDX_ID_SEP], prefix @ enc @ [IDX_ID_SEP] @ [CHR 0xFF]))
      | None \<Rightarrow>
          (case (case map_of operator ''$gt'' of
                   Some v \<Rightarrow> (case encodeValue P v of Inl e \<Rightarrow> Inl e
                              | Inr enc \<Rightarrow> Inr (prefix @ enc @ [IDX_ID_SEP] @ [CHR 0xFF]))
                 | None \<Rightarrow>
                     (case map_of operator ''$gte'' of
                        Some v \<Rightarrow> (case encodeValue P v of Inl e \<Rightarrow> Inl e
                                   | Inr enc \<Rightarrow> Inr (prefix @ enc @ [IDX_ID_SEP]))
                      | None \<Rightarrow> Inr prefix)) of
             Inl e \<Rightarrow> Inl e
           | Inr startKey \<Rightarrow>
               (case (case map_of operator ''$lt'' of
                        Some v \<Rightarrow> (case encodeValue P v of Inl e \<Rightarrow> Inl e
                                   | Inr enc \<Rightarrow> Inr (prefix @ enc @ [IDX_ID_SEP]))
                      | None \<Rightarrow>
                          (case map_of operator ''$lte'' of
                             Some v \<Rightarrow> (case encodeValue P v of Inl e \<Rightarrow> Inl e
                                        | Inr enc \<Rightarrow> Inr (prefix @ enc @ [IDX_ID_SEP] @ [CHR 0xFF]))
                           | None \<Rightarrow> Inr (prefix @ [CHR 0xFF]))) of
                  Inl e \<Rightarrow> Inl e
                | Inr endKey \<Rightarrow> Inr (startKey, endKey))))"

definition hasComparison :: "(string \<times> jsval) list \<Rightarrow> bool" where
  "hasComparison ops =
     (map_of ops ''$gt'' \<noteq> None \<or> map_of ops ''$gte'' \<noteq> None \<or> map_of ops ''$lt'' \<noteq> None
      \<or> map_of ops ''$lte'' \<noteq> None \<or> map_of ops ''$eq'' \<noteq> None)"

definition otherFields :: "(string \<times> jsval) list \<Rightarrow> string \<Rightarrow> string list" where
  "otherFields entries field = filter (\<lambda>f. f \<noteq> field \<and> \<not> startsWithDollar f) (map fst entries)"

definition indexScanPlan ::
  "string \<Rightarrow> IndexDefinition \<Rightarrow> string \<times> string \<Rightarrow> bool \<Rightarrow> nat \<Rightarrow> QueryPlan" where
  "indexScanPlan field index rng post cost =
     \<lparr> qp_type = IndexScan, qp_indexField = Some field, qp_indexName = Some (ix_name index),
       qp_startKey = Some (fst rng), qp_endKey = Some (snd rng),
       qp_needsPostFilter = post, qp_estimatedCost = cost \<rparr>"

definition collectionScanPlan :: "bool \<Rightarrow> QueryPlan" where
  "collectionScanPlan post =
     \<lparr> qp_type = CollectionScan, qp_indexField = None, qp_indexName = None,
       qp_startKey = None, qp_endKey = None, qp_needsPostFilter = post, qp_estimatedCost = 1000 \<rparr>"

text \<open>
  The first loop of \<^verbatim>\<open>planQuery\<close>, over \<^verbatim>\<open>Object.entries(filter)\<close>: \<open>all\<close> is the
  whole entry list (for \<^verbatim>\<open>otherFields\<close>), the second list what is left to visit.
  \<open>None\<close> when the loop ends without returning.
\<close>

fun planFields ::
  "platform \<Rightarrow> (string \<times> jsval) list \<Rightarrow> (string \<times> jsval) list \<Rightarrow> IndexDefinition list \<Rightarrow> string
     \<Rightarrow> error + QueryPlan option" where
  "planFields P entries [] indexes collection = Inr None"
| "planFields P entries ((field, condition) # rest) indexes collection =
     (if startsWithDollar field then planFields P entries rest indexes collection
      else case find (\<lambda>idx. ix_field idx = field) indexes of
        None \<Rightarrow> planFields P entries rest indexes collection
      | Some index \<Rightarrow>
          (case condition of
             JObj ops \<Rightarrow>
               if hasComparison ops then
                 (case computeIndexRange P collection field ops of
                    Inl e \<Rightarrow> Inl e
                  | Inr rng \<Rightarrow>
                      Inr (Some (indexScanPlan field index rng (otherFields entries field \<noteq> []) 10)))
               else planFields P entries rest indexes collection
           | JDate ms \<Rightarrow> planFields P entries rest indexes collection
           | _ \<Rightarrow>
               (case computeIndexRange P collection field [(''$eq'', condition)] of
                  Inl e \<Rightarrow> Inl e
                | Inr rng \<Rightarrow>
                    Inr (Some (indexScanPlan field index rng (otherFields entries field \<noteq> []) 1)))))"

definition subFilters :: "jsval \<Rightarrow> string \<Rightarrow> jsval list" where
  "subFilters flt key = (case getProperty flt key of Some (JArr subs) \<Rightarrow> subs | _ \<Rightarrow> [])"

lemma size_subFilters: "size_list size (subFilters f key) \<le> size f"
proof (cases "getProperty f key")
  case None
  then show ?thesis by (simp add: subFilters_def)
next
  case (Some v)
  then have m: "(key, v) \<in> set (ownEntries f)"
    unfolding getProperty_def by (rule map_of_SomeD)
  show ?thesis
  proof (cases v)
    case (JArr subs)
    have "size (JArr subs) \<le> size f"
    proof (cases f)
      case (JObj props)
      then have "(key, JArr subs) \<in> set props" using m JArr by (simp add: ownEntries_def)
      then have "size_prod (\<lambda>x. 0) size (key, JArr subs) \<le> size_list (size_prod (\<lambda>x. 0) size) props"
        by (rule size_list_estimation') simp
      then show ?thesis using JObj by simp
    next
      case (JArr elems)
      then have "JArr subs \<in> set elems"
        using m \<open>v = JArr subs\<close> by (auto simp: ownEntries_def dest: set_zip_rightD)
      then have "size (JArr subs) \<le> size_list size elems"
        by (rule size_list_estimation') simp
      then show ?thesis using JArr by simp
    next
      case (JStr s)
      then have "JArr subs \<in> set (map (\<lambda>c. JStr [c]) s)"
        using m \<open>v = JArr subs\<close> by (auto simp: ownEntries_def dest: set_zip_rightD)
      then show ?thesis by auto
    qed (use m in \<open>simp_all add: ownEntries_def\<close>)
    then show ?thesis using Some JArr by (simp add: subFilters_def)
  qed (use Some in \<open>simp_all add: subFilters_def\<close>)
qed

function planQuery :: "platform \<Rightarrow> jsval \<Rightarrow> IndexDefinition list \<Rightarrow> string \<Rightarrow> error + QueryPlan"
  and planFirst :: "platform \<Rightarrow> jsval list \<Rightarrow> IndexDefinition list \<Rightarrow> string \<Rightarrow> error + QueryPlan option"
where
  "planQuery P flt indexes collection =
     (if ownEntries flt = [] then Inr (collectionScanPlan False)
      else case planFields P (ownEntries flt) (ownEntries flt) indexes collection of
             Inl e \<Rightarrow> Inl e
           | Inr (Some plan) \<Rightarrow> Inr plan
           | Inr None \<Rightarrow>
               (case planFirst P (subFilters flt ''$and'') indexes collection of
                  Inl e \<Rightarrow> Inl e
                | Inr (Some plan) \<Rightarrow> Inr (plan \<lparr> qp_needsPostFilter := True \<rparr>)
                | Inr None \<Rightarrow>
                    (case planFirst P (subFilters flt ''$or'') indexes collection of
                       Inl e \<Rightarrow> Inl e
                     | Inr (Some plan) \<Rightarrow> Inr (plan \<lparr> qp_needsPostFilter := True \<rparr>)
                     | Inr None \<Rightarrow> Inr (collectionScanPlan True))))"
| "planFirst P [] indexes collection = Inr None"
| "planFirst P (subFilter # rest) indexes collection =
     (case planQuery P subFilter indexes collection of
        Inl e \<Rightarrow> Inl e
      | Inr plan \<Rightarrow>
          if qp_type plan = IndexScan then Inr (Some plan)
          else planFirst P rest indexes collection)"
  by pat_completeness auto
termination
proof (relation "measure (\<lambda>x. case x of Inl (P, f, ixs, c) \<Rightarrow> 2 * size f + 2
                                   | Inr (P, subs, ixs, c) \<Rightarrow> 2 * size_list size subs + 1)",
       goal_cases)
  case (2 P flt indexes collection)
  show ?case using size_subFilters [of flt "''$and''"] by simp
next
  case (3 P flt indexes collection)
  show ?case using size_subFilters [of flt "''$or''"] by simp
qed simp_all

section \<open>Residual filter evaluation\<close>

definition typeOf :: "jsval \<Rightarrow> string" where
  "typeOf v =
     (case v of
        JBool b \<Rightarrow> ''boolean''
      | JNum n \<Rightarrow> ''number''
      | JStr s \<Rightarrow> ''string''
      | JFun name \<Rightarrow> ''function''
      | _ \<Rightarrow> ''object'')"

definition numberEquals :: "64 word \<Rightarrow> 64 word \<Rightarrow> bool" where
  "numberEquals x y = (\<not> isNaN x \<and> \<not> isNaN y \<and> dval x = dval y)"

text \<open>
  \<^verbatim>\<open>deepEquals(a, b)\<close>, one equation per pair of kinds. \<^verbatim>\<open>a === b\<close> decides two
  primitives of one type; two objects are never the same object here (one comes from
  the stored document, the other from the request), so for them the structural
  branches decide: both arrays by length and elements, otherwise the
  \<^verbatim>\<open>Object.keys\<close> of both (an array's indices, none for a \<^verbatim>\<open>Date\<close>) by count and
  then key by key. \<open>null\<close> equals only \<open>null\<close>; values of different \<^verbatim>\<open>typeof\<close> differ;
  a built-in function equals only itself. The reads \<^verbatim>\<open>b[key]\<close> come after
  \<^verbatim>\<open>keysB.includes(key)\<close>, so they are reads of own properties.
\<close>

fun deepEquals :: "jsval \<Rightarrow> jsval \<Rightarrow> bool"
  and deepEqualsArrays :: "jsval list \<Rightarrow> jsval list \<Rightarrow> bool"
  and deepEqualsProps :: "(string \<times> jsval) list \<Rightarrow> jsval \<Rightarrow> bool"
  and deepEqualsIndexed :: "nat \<Rightarrow> jsval list \<Rightarrow> jsval \<Rightarrow> bool"
where
  "deepEquals JNull b = (b = JNull)"
| "deepEquals (JBool p) b = (case b of JBool q \<Rightarrow> p = q | _ \<Rightarrow> False)"
| "deepEquals (JNum x) b = (case b of JNum y \<Rightarrow> numberEquals x y | _ \<Rightarrow> False)"
| "deepEquals (JStr s) b = (case b of JStr t \<Rightarrow> s = t | _ \<Rightarrow> False)"
| "deepEquals (JDate d) b =
     (case b of JDate d' \<Rightarrow> True | JObj q \<Rightarrow> q = [] | JArr ys \<Rightarrow> ys = [] | _ \<Rightarrow> False)"
| "deepEquals (JArr xs) b =
     (case b of
        JArr ys \<Rightarrow> length xs = length ys \<and> deepEqualsArrays xs ys
      | JObj q \<Rightarrow> length xs = length q \<and> deepEqualsIndexed 0 xs b
      | JDate d \<Rightarrow> xs = []
      | _ \<Rightarrow> False)"
| "deepEquals (JObj p) b =
     (case b of
        JObj q \<Rightarrow> length p = length q \<and> deepEqualsProps p b
      | JArr ys \<Rightarrow> length p = length ys \<and> deepEqualsProps p b
      | JDate d \<Rightarrow> p = []
      | _ \<Rightarrow> False)"
| "deepEquals (JFun name) b = (b = JFun name)"
| "deepEqualsArrays [] ys = True"
| "deepEqualsArrays (x # xs) [] = True"
| "deepEqualsArrays (x # xs) (y # ys) = (deepEquals x y \<and> deepEqualsArrays xs ys)"
| "deepEqualsProps [] b = True"
| "deepEqualsProps ((key, va) # rest) b =
     (case getProperty b key of
        None \<Rightarrow> False
      | Some vb \<Rightarrow> deepEquals va vb \<and> deepEqualsProps rest b)"
| "deepEqualsIndexed i [] b = True"
| "deepEqualsIndexed i (x # xs) b =
     (case getProperty b (decimal i) of
        None \<Rightarrow> False
      | Some vb \<Rightarrow> deepEquals x vb \<and> deepEqualsIndexed (Suc i) xs b)"

text \<open>The document side may be \<^verbatim>\<open>undefined\<close>, which equals no filter value.\<close>

definition deepEqualsOpt :: "jsval option \<Rightarrow> jsval \<Rightarrow> bool" where
  "deepEqualsOpt a b = (case a of None \<Rightarrow> False | Some v \<Rightarrow> deepEquals v b)"

definition numberOf :: "platform \<Rightarrow> jsval \<Rightarrow> 64 word" where
  "numberOf P v =
     (case v of
        JNum n \<Rightarrow> n
      | JNull \<Rightarrow> 0
      | JBool b \<Rightarrow> (if b then 0x3FF0000000000000 else 0)
      | _ \<Rightarrow> to_number P v)"

definition stringOf :: "platform \<Rightarrow> jsval \<Rightarrow> string" where
  "stringOf P v =
     (case v of
        JStr s \<Rightarrow> s
      | JNull \<Rightarrow> ''null''
      | JBool b \<Rightarrow> (if b then ''true'' else ''false'')
      | _ \<Rightarrow> to_string P v)"

datatype cmpOp = Gt | Gte | Lt | Lte

definition compareValues :: "platform \<Rightarrow> jsval \<Rightarrow> jsval \<Rightarrow> cmpOp \<Rightarrow> bool" where
  "compareValues P a b op =
     (let numA = numberOf P a; numB = numberOf P b in
      if \<not> isNaN numA \<and> \<not> isNaN numB then
        (case op of
           Gt \<Rightarrow> dval numA > dval numB
         | Gte \<Rightarrow> dval numA \<ge> dval numB
         | Lt \<Rightarrow> dval numA < dval numB
         | Lte \<Rightarrow> dval numA \<le> dval numB)
      else
        let strA = stringOf P a; strB = stringOf P b in
        (case op of
           Gt \<Rightarrow> strA > strB
         | Gte \<Rightarrow> strA \<ge> strB
         | Lt \<Rightarrow> strA < strB
         | Lte \<Rightarrow> strA \<le> strB))"

definition truthy :: "jsval \<Rightarrow> bool" where
  "truthy v =
     (case v of
        JNull \<Rightarrow> False
      | JBool b \<Rightarrow> b
      | JNum n \<Rightarrow> \<not> isNaN n \<and> dval n \<noteq> 0
      | JStr s \<Rightarrow> s \<noteq> []
      | _ \<Rightarrow> True)"

definition rangeMatches :: "platform \<Rightarrow> jsval option \<Rightarrow> jsval \<Rightarrow> cmpOp \<Rightarrow> bool" where
  "rangeMatches P v target op =
     (case v of
        None \<Rightarrow> False
      | Some JNull \<Rightarrow> False
      | Some a \<Rightarrow> compareValues P a target op)"

fun matchesComparison :: "platform \<Rightarrow> jsval option \<Rightarrow> (string \<times> jsval) list \<Rightarrow> error + bool" where
  "matchesComparison P v [] = Inr True"
| "matchesComparison P v ((op, target) # rest) =
     (if op = ''$eq'' then
        (if \<not> deepEqualsOpt v target then Inr False else matchesComparison P v rest)
      else if op = ''$ne'' then
        (if deepEqualsOpt v target then Inr False else matchesComparison P v rest)
      else if op = ''$gt'' then
        (if \<not> rangeMatches P v target Gt then Inr False else matchesComparison P v rest)
      else if op = ''$gte'' then
        (if \<not> rangeMatches P v target Gte then Inr False else matchesComparison P v rest)
      else if op = ''$lt'' then
        (if \<not> rangeMatches P v target Lt then Inr False else matchesComparison P v rest)
      else if op = ''$lte'' then
        (if \<not> rangeMatches P v target Lte then Inr False else matchesComparison P v rest)
      else if op = ''$in'' then
        (case target of
           JArr ts \<Rightarrow>
             if length ts > 2000 then Inl Error
             else if \<not> list_ex (\<lambda>t. deepEqualsOpt v t) ts then Inr False
             else matchesComparison P v rest
         | _ \<Rightarrow> matchesComparison P v rest)
      else if op = ''$nin'' then
        (case target of
           JArr ts \<Rightarrow>
             if length ts > 2000 then Inl Error
             else if list_ex (\<lambda>t. deepEqualsOpt v t) ts then Inr False
             else matchesComparison P v rest
         | _ \<Rightarrow> matchesComparison P v rest)
      else if op = ''$exists'' then
        (let shouldExist = truthy target; doesExist = (v \<noteq> None) in
         if shouldExist \<noteq> doesExist then Inr False else matchesComparison P v rest)
      else matchesComparison P v rest)"

fun splitOn :: "char \<Rightarrow> string \<Rightarrow> string list" where
  "splitOn c [] = [[]]"
| "splitOn c (x # xs) =
     (if x = c then [] # splitOn c xs
      else case splitOn c xs of
             w # ws \<Rightarrow> (x # w) # ws
           | [] \<Rightarrow> [[x]])"

fun getNestedParts :: "platform \<Rightarrow> jsval option \<Rightarrow> string list \<Rightarrow> jsval option" where
  "getNestedParts P current [] = current"
| "getNestedParts P current (part # rest) =
     (case current of
        None \<Rightarrow> None
      | Some v \<Rightarrow>
          if v = JNull \<or> typeOf v \<noteq> ''object'' then None
          else getNestedParts P (readProperty P v part) rest)"

definition getNestedField :: "platform \<Rightarrow> jsval \<Rightarrow> string \<Rightarrow> jsval option" where
  "getNestedField P doc path = getNestedParts P (Some doc) (splitOn CHR ''.'' path)"

definition matchesField :: "platform \<Rightarrow> jsval \<Rightarrow> string \<Rightarrow> jsval \<Rightarrow> error + bool" where
  "matchesField P doc field condition =
     (let docValue = getNestedField P doc field in
      case condition of
        JObj ops \<Rightarrow> matchesComparison P docValue ops
      | JDate ms \<Rightarrow> matchesComparison P docValue []
      | _ \<Rightarrow> Inr (deepEqualsOpt docValue condition))"

fun matchesFields :: "platform \<Rightarrow> jsval \<Rightarrow> (string \<times> jsval) list \<Rightarrow> error + bool" where
  "matchesFields P doc [] = Inr True"
| "matchesFields P doc ((field, condition) # rest) =
     (case matchesField P doc field condition of
        Inl e \<Rightarrow> Inl e
      | Inr ok \<Rightarrow> if \<not> ok then Inr False else matchesFields P doc rest)"

fun matchesFilter :: "platform \<Rightarrow> jsval \<Rightarrow> jsval \<Rightarrow> error + bool"
  and matchesEntries :: "platform \<Rightarrow> jsval \<Rightarrow> (string \<times> jsval) list \<Rightarrow> error + bool"
  and matchesEvery :: "platform \<Rightarrow> jsval \<Rightarrow> jsval list \<Rightarrow> error + bool"
  and matchesSome :: "platform \<Rightarrow> jsval \<Rightarrow> jsval list \<Rightarrow> error + bool"
where
  "matchesFilter P doc (JObj props) = matchesEntries P doc props"
| "matchesFilter P doc flt = matchesFields P doc (ownEntries flt)"
| "matchesEntries P doc [] = Inr True"
| "matchesEntries P doc ((field, condition) # rest) =
     (if field = ''$and'' then
        (case condition of
           JArr subs \<Rightarrow>
             (case matchesEvery P doc subs of
                Inl e \<Rightarrow> Inl e
              | Inr ok \<Rightarrow> if \<not> ok then Inr False else matchesEntries P doc rest)
         | _ \<Rightarrow> matchesEntries P doc rest)
      else if field = ''$or'' then
        (case condition of
           JArr orFilters \<Rightarrow>
             if orFilters \<noteq> [] then
               (case matchesSome P doc orFilters of
                  Inl e \<Rightarrow> Inl e
                | Inr found \<Rightarrow> if \<not> found then Inr False else matchesEntries P doc rest)
             else matchesEntries P doc rest
         | _ \<Rightarrow> matchesEntries P doc rest)
      else
        (case matchesField P doc field condition of
           Inl e \<Rightarrow> Inl e
         | Inr ok \<Rightarrow> if \<not> ok then Inr False else matchesEntries P doc rest))"
| "matchesEvery P doc [] = Inr True"
| "matchesEvery P doc (subFilter # rest) =
     (case matchesFilter P doc subFilter of
        Inl e \<Rightarrow> Inl e
      | Inr ok \<Rightarrow> if \<not> ok then Inr False else matchesEvery P doc rest)"
| "matchesSome P doc [] = Inr False"
| "matchesSome P doc (sub # rest) =
     (case matchesFilter P doc sub of
        Inl e \<Rightarrow> Inl e
      | Inr ok \<Rightarrow> if ok then Inr True else matchesSome P doc rest)"

section \<open>The key-value substrate\<close>

text \<open>
  The store is written against the \<^verbatim>\<open>KVAdapter\<close> interface. The model keeps the
  entries sorted by key, as the in-memory adapter does, and scans as the interface
  says: keys that start with the prefix, from \<open>startKey\<close> inclusive to \<open>endKey\<close>
  exclusive, ascending, at most \<open>limit\<close> of them. A value is the parsed form of the
  stored JSON text: a document, a collection's metadata, or the sentinel \<^verbatim>\<open>"1"\<close> of an
  index row.
\<close>

record CollectionMetadata =
  cm_name :: string
  cm_indexes :: "IndexDefinition list"
  cm_createdAt :: nat
  cm_schemaVersion :: nat
  cm_documentCount :: int

datatype kvvalue = DocValue document | MetaValue CollectionMetadata | Sentinel

type_synonym kvstore = "(string \<times> kvvalue) list"

definition kvGet :: "kvstore \<Rightarrow> string \<Rightarrow> kvvalue option" where
  "kvGet kv key = map_of kv key"

fun kvPut :: "string \<Rightarrow> kvvalue \<Rightarrow> kvstore \<Rightarrow> kvstore" where
  "kvPut key v [] = [(key, v)]"
| "kvPut key v ((k, w) # rest) =
     (if key = k then (key, v) # rest
      else if key < k then (key, v) # (k, w) # rest
      else (k, w) # kvPut key v rest)"

definition kvDelete :: "string \<Rightarrow> kvstore \<Rightarrow> kvstore" where
  "kvDelete key kv = filter (\<lambda>(k, w). k \<noteq> key) kv"

record ScanOptions =
  so_prefix :: "string option"
  so_startKey :: "string option"
  so_endKey :: "string option"
  so_limit :: "nat option"

definition startsWith :: "string \<Rightarrow> string \<Rightarrow> bool" where
  "startsWith s p = (take (length p) s = p)"

definition inScanRange :: "ScanOptions \<Rightarrow> string \<Rightarrow> bool" where
  "inScanRange options k =
     ((case so_prefix options of None \<Rightarrow> True | Some p \<Rightarrow> p = [] \<or> startsWith k p)
      \<and> (case so_startKey options of None \<Rightarrow> True | Some s \<Rightarrow> s = [] \<or> s \<le> k)
      \<and> (case so_endKey options of None \<Rightarrow> True | Some e \<Rightarrow> e = [] \<or> k < e))"

definition kvScan :: "kvstore \<Rightarrow> ScanOptions \<Rightarrow> (string \<times> kvvalue) list" where
  "kvScan kv options =
     (let matching = filter (\<lambda>(k, w). inScanRange options k) kv
      in case so_limit options of None \<Rightarrow> matching | Some n \<Rightarrow> take n matching)"

definition BATCH_LIMIT :: nat where
  "BATCH_LIMIT = 5000"

subsection \<open>Index manager\<close>

fun uniqueLoop :: "bool \<Rightarrow> string \<Rightarrow> (string \<times> kvvalue) list \<Rightarrow> error + unit" where
  "uniqueLoop excludeSelf currentDocId [] = Inr ()"
| "uniqueLoop excludeSelf currentDocId ((key, w) # rest) =
     (if excludeSelf \<and> (case decodeIdxKey key of None \<Rightarrow> False | Some decoded \<Rightarrow> ik_id decoded = currentDocId)
      then uniqueLoop excludeSelf currentDocId rest
      else Inl (IndexError DuplicateKey))"

definition checkUnique ::
  "platform \<Rightarrow> kvstore \<Rightarrow> string \<Rightarrow> IndexDefinition \<Rightarrow> jsval \<Rightarrow> string \<Rightarrow> bool \<Rightarrow> error + unit" where
  "checkUnique P kv collectionName index v currentDocId excludeSelf =
     (case encodeValue P v of
        Inl e \<Rightarrow> Inl e
      | Inr encoded \<Rightarrow>
          let prefix = idxPrefix collectionName (ix_field index) @ encoded @ [CHR 0x1F];
              existing = kvScan kv \<lparr> so_prefix = Some prefix, so_startKey = None,
                                     so_endKey = None, so_limit = Some 2 \<rparr>
          in uniqueLoop excludeSelf currentDocId existing)"

text \<open>
  \<^verbatim>\<open>onInsert\<close>, \<^verbatim>\<open>onUpdate\<close> and \<^verbatim>\<open>onDelete\<close> read \<^verbatim>\<open>doc[index.field]\<close>, which
  also finds a member the document inherits. The first phase of \<^verbatim>\<open>onInsert\<close> and
  of \<^verbatim>\<open>onUpdate\<close>, the checks and the list of keys to write or delete, is the
  \<open>Plan\<close> function; the second phase applies it, so nothing is written when a check
  throws. \<^verbatim>\<open>onDelete\<close> deletes key by key as it goes.
\<close>

definition isNullish :: "jsval option \<Rightarrow> bool" where
  "isNullish v = (v = None \<or> v = Some JNull)"

fun onInsertPlan ::
  "platform \<Rightarrow> kvstore \<Rightarrow> string \<Rightarrow> IndexDefinition list \<Rightarrow> document \<Rightarrow> string \<Rightarrow> error + string list" where
  "onInsertPlan P kv collectionName [] doc docId = Inr []"
| "onInsertPlan P kv collectionName (index # rest) doc docId =
     (case readProperty P (JObj doc) (ix_field index) of
        None \<Rightarrow> onInsertPlan P kv collectionName rest doc docId
      | Some v \<Rightarrow>
          if v = JNull then onInsertPlan P kv collectionName rest doc docId
          else
            (case (if ix_unique index then checkUnique P kv collectionName index v docId False else Inr ()) of
               Inl e \<Rightarrow> Inl e
             | Inr u \<Rightarrow>
                 (case encodeIdxKey P collectionName (ix_field index) v docId of
                    Inl e \<Rightarrow> Inl e
                  | Inr key \<Rightarrow>
                      (case onInsertPlan P kv collectionName rest doc docId of
                         Inl e \<Rightarrow> Inl e
                       | Inr puts \<Rightarrow> Inr (key # puts)))))"

definition applyPuts :: "string list \<Rightarrow> kvstore \<Rightarrow> kvstore" where
  "applyPuts puts kv = foldl (\<lambda>s key. kvPut key Sentinel s) kv puts"

definition applyDeletes :: "string list \<Rightarrow> kvstore \<Rightarrow> kvstore" where
  "applyDeletes deletes kv = foldl (\<lambda>s key. kvDelete key s) kv deletes"

definition onInsert ::
  "platform \<Rightarrow> kvstore \<Rightarrow> string \<Rightarrow> IndexDefinition list \<Rightarrow> document \<Rightarrow> string \<Rightarrow> error + kvstore" where
  "onInsert P kv collectionName indexes doc docId =
     (case onInsertPlan P kv collectionName indexes doc docId of
        Inl e \<Rightarrow> Inl e
      | Inr puts \<Rightarrow> Inr (applyPuts puts kv))"

definition stringifyOpt :: "platform \<Rightarrow> jsval option \<Rightarrow> string option" where
  "stringifyOpt P v = (case v of None \<Rightarrow> None | Some w \<Rightarrow> jsonStringify P w)"

fun onUpdatePlan ::
  "platform \<Rightarrow> kvstore \<Rightarrow> string \<Rightarrow> IndexDefinition list \<Rightarrow> document \<Rightarrow> document \<Rightarrow> string
     \<Rightarrow> error + (string list \<times> string list)" where
  "onUpdatePlan P kv collectionName [] oldDoc newDoc docId = Inr ([], [])"
| "onUpdatePlan P kv collectionName (index # rest) oldDoc newDoc docId =
     (let oldValue = readProperty P (JObj oldDoc) (ix_field index);
          newValue = readProperty P (JObj newDoc) (ix_field index)
      in if stringifyOpt P oldValue = stringifyOpt P newValue
         then onUpdatePlan P kv collectionName rest oldDoc newDoc docId
         else
           (case (if isNullish oldValue then Inr []
                  else (case encodeIdxKey P collectionName (ix_field index) (the oldValue) docId of
                          Inl e \<Rightarrow> Inl e | Inr key \<Rightarrow> Inr [key])) of
              Inl e \<Rightarrow> Inl e
            | Inr dels \<Rightarrow>
                (case (if isNullish newValue then Inr []
                       else (case (if ix_unique index
                                   then checkUnique P kv collectionName index (the newValue) docId True
                                   else Inr ()) of
                               Inl e \<Rightarrow> Inl e
                             | Inr u \<Rightarrow>
                                 (case encodeIdxKey P collectionName (ix_field index) (the newValue) docId of
                                    Inl e \<Rightarrow> Inl e | Inr key \<Rightarrow> Inr [key]))) of
                   Inl e \<Rightarrow> Inl e
                 | Inr ps \<Rightarrow>
                     (case onUpdatePlan P kv collectionName rest oldDoc newDoc docId of
                        Inl e \<Rightarrow> Inl e
                      | Inr (deletes, puts) \<Rightarrow> Inr (dels @ deletes, ps @ puts)))))"

definition onUpdate ::
  "platform \<Rightarrow> kvstore \<Rightarrow> string \<Rightarrow> IndexDefinition list \<Rightarrow> document \<Rightarrow> document \<Rightarrow> string
     \<Rightarrow> error + kvstore" where
  "onUpdate P kv collectionName indexes oldDoc newDoc docId =
     (case onUpdatePlan P kv collectionName indexes oldDoc newDoc docId of
        Inl e \<Rightarrow> Inl e
      | Inr (deletes, puts) \<Rightarrow> Inr (applyPuts puts (applyDeletes deletes kv)))"

fun onDelete ::
  "platform \<Rightarrow> kvstore \<Rightarrow> string \<Rightarrow> IndexDefinition list \<Rightarrow> document \<Rightarrow> string
     \<Rightarrow> (error + unit) \<times> kvstore" where
  "onDelete P kv collectionName [] doc docId = (Inr (), kv)"
| "onDelete P kv collectionName (index # rest) doc docId =
     (let v = readProperty P (JObj doc) (ix_field index)
      in if isNullish v then onDelete P kv collectionName rest doc docId
         else (case encodeIdxKey P collectionName (ix_field index) (the v) docId of
                 Inl e \<Rightarrow> (Inl e, kv)
               | Inr key \<Rightarrow> onDelete P (kvDelete key kv) collectionName rest doc docId))"

subsection \<open>Query executor\<close>

definition reached :: "nat option \<Rightarrow> document list \<Rightarrow> bool" where
  "reached maxNeeded documents =
     (case maxNeeded of None \<Rightarrow> False | Some m \<Rightarrow> length documents \<ge> m)"

text \<open>
  The \<^verbatim>\<open>for\<close> loop over one chunk of index entries. It returns the last key it set
  and the documents and scan count so far; a \<^verbatim>\<open>break\<close> ends it early.
\<close>

fun indexScanChunk ::
  "platform \<Rightarrow> kvstore \<Rightarrow> bool \<Rightarrow> string \<Rightarrow> jsval \<Rightarrow> nat option \<Rightarrow> (string \<times> kvvalue) list
     \<Rightarrow> string \<Rightarrow> document list \<times> nat \<Rightarrow> error + (string \<times> document list \<times> nat)" where
  "indexScanChunk P kv post collection flt maxNeeded [] lastKey acc = Inr (lastKey, acc)"
| "indexScanChunk P kv post collection flt maxNeeded ((key, w) # rest) lastKey acc =
     (let lastKey' = key @ [CHR 0x00] in
      case decodeIdxKey key of
        None \<Rightarrow> indexScanChunk P kv post collection flt maxNeeded rest lastKey' acc
      | Some decoded \<Rightarrow>
          (case kvGet kv (encodeDocKey collection (ik_id decoded)) of
             None \<Rightarrow> indexScanChunk P kv post collection flt maxNeeded rest lastKey' acc
           | Some docData \<Rightarrow>
               (case docData of
                  DocValue doc \<Rightarrow>
                    (case (if \<not> post then Inr True else matchesFilter P (JObj doc) flt) of
                       Inl e \<Rightarrow> Inl e
                     | Inr ok \<Rightarrow>
                         if ok then
                           (if reached maxNeeded (fst acc @ [doc])
                            then Inr (lastKey', (fst acc @ [doc], Suc (snd acc)))
                            else indexScanChunk P kv post collection flt maxNeeded rest lastKey'
                                   (fst acc @ [doc], Suc (snd acc)))
                         else indexScanChunk P kv post collection flt maxNeeded rest lastKey'
                                (fst acc, Suc (snd acc)))
                | _ \<Rightarrow> Inl Error)))"

lemma indexScanChunk_lastKey:
  "indexScanChunk P kv post collection flt maxNeeded entries lastKey acc = Inr (lastKey', acc') \<Longrightarrow>
     lastKey' = lastKey \<and> entries = [] \<or> (\<exists>k \<in> fst ` set entries. lastKey' = k @ [CHR 0x00])"
proof (induction entries arbitrary: lastKey acc)
  case Nil
  then show ?case by simp
next
  case (Cons entry entries)
  obtain key w where e: "entry = (key, w)" by (cases entry)
  have step: "\<And>a. indexScanChunk P kv post collection flt maxNeeded entries (key @ [CHR 0x00]) a = Inr (lastKey', acc')
      \<Longrightarrow> \<exists>k \<in> fst ` set (entry # entries). lastKey' = k @ [CHR 0x00]"
    using Cons.IH e by fastforce
  show ?case using Cons.prems step unfolding e
    by (auto simp: Let_def split: option.splits kvvalue.splits sum.splits if_splits)
qed

lemma kvScan_subset: "set (kvScan kv options) \<subseteq> set kv"
  by (auto simp: kvScan_def Let_def split: option.splits dest: in_set_takeD)

lemma kvScan_inRange: "(k, w) \<in> set (kvScan kv options) \<Longrightarrow> inScanRange options k"
  by (auto simp: kvScan_def Let_def split: option.splits dest: in_set_takeD)

lemma length_filter_less:
  assumes "\<And>x. x \<in> set xs \<Longrightarrow> Q x \<Longrightarrow> R x" and "y \<in> set xs" and "R y" and "\<not> Q y"
  shows "length (filter Q xs) < length (filter R xs)"
proof -
  have "filter Q xs = filter Q (filter R xs)"
    using assms(1) by (induction xs) auto
  moreover have "length (filter Q (filter R xs)) < length (filter R xs)"
    using assms(2-4) by (intro length_filter_less) auto
  ultimately show ?thesis by simp
qed

lemma less_snoc: "k < k @ [c]" for k :: string
  by (induction k) auto

definition keysFrom :: "string \<Rightarrow> kvstore \<Rightarrow> (string \<times> kvvalue) list" where
  "keysFrom s kv = filter (\<lambda>(k, w). s \<le> k) kv"

lemma keysFrom_decreases:
  assumes "(k, w) \<in> set kv" and "s = [] \<or> s \<le> k"
  shows "length (keysFrom (k @ [c]) kv) < length (keysFrom s kv)"
  unfolding keysFrom_def
proof (rule length_filter_less [where y = "(k, w)"])
  fix x assume "x \<in> set kv" and "case x of (k', w') \<Rightarrow> k @ [c] \<le> k'"
  then show "case x of (k', w') \<Rightarrow> s \<le> k'"
    using assms(2) less_snoc [of k c] by (cases x) (auto intro: order_trans less_imp_le)
next
  show "(k, w) \<in> set kv" by (rule assms)
  show "case (k, w) of (k', w') \<Rightarrow> s \<le> k'" using assms(2) by auto
  show "\<not> (case (k, w) of (k', w') \<Rightarrow> k @ [c] \<le> k')" using less_snoc [of k c] by auto
qed

function indexScanLoop ::
  "platform \<Rightarrow> kvstore \<Rightarrow> bool \<Rightarrow> string \<Rightarrow> jsval \<Rightarrow> nat option \<Rightarrow> string
     \<Rightarrow> string \<Rightarrow> document list \<times> nat \<Rightarrow> error + (document list \<times> nat)" where
  "indexScanLoop P kv post collection flt maxNeeded endK lastKey acc =
     (let indexEntries = kvScan kv \<lparr> so_prefix = None, so_startKey = Some lastKey,
                                      so_endKey = Some endK, so_limit = Some BATCH_LIMIT \<rparr>
      in if indexEntries = [] then Inr acc
         else case indexScanChunk P kv post collection flt maxNeeded indexEntries lastKey acc of
                Inl e \<Rightarrow> Inl e
              | Inr (lastKey', acc') \<Rightarrow>
                  if reached maxNeeded (fst acc') then Inr acc'
                  else if length indexEntries < BATCH_LIMIT then Inr acc'
                  else indexScanLoop P kv post collection flt maxNeeded endK lastKey' acc')"
  by pat_completeness auto
termination
proof (relation "measure (\<lambda>(P, kv, post, collection, flt, maxNeeded, endK, lastKey, acc).
                            length (keysFrom lastKey kv))", goal_cases)
  case 1
  show ?case by simp
next
  case (2 P kv post collection flt maxNeeded endK lastKey acc indexEntries x lastKey' acc')
  from 2(2,3,4) obtain k where k: "k \<in> fst ` set indexEntries" "lastKey' = k @ [CHR 0x00]"
    using indexScanChunk_lastKey [of P kv post collection flt maxNeeded indexEntries lastKey acc lastKey' acc']
    by auto
  then obtain w where w: "(k, w) \<in> set indexEntries" by auto
  then have "(k, w) \<in> set kv" using 2(1) kvScan_subset by blast
  moreover have "inScanRange \<lparr> so_prefix = None, so_startKey = Some lastKey,
                         so_endKey = Some endK, so_limit = Some BATCH_LIMIT \<rparr> k"
    using kvScan_inRange w 2(1) by blast
  then have "lastKey = [] \<or> lastKey \<le> k"
    by (simp add: inScanRange_def)
  ultimately show ?case using keysFrom_decreases k(2) by simp
qed

fun collectionScanChunk ::
  "platform \<Rightarrow> bool \<Rightarrow> jsval \<Rightarrow> nat option \<Rightarrow> (string \<times> kvvalue) list
     \<Rightarrow> string option \<Rightarrow> document list \<times> nat \<Rightarrow> error + (string option \<times> document list \<times> nat)" where
  "collectionScanChunk P post flt maxNeeded [] lastKey acc = Inr (lastKey, acc)"
| "collectionScanChunk P post flt maxNeeded ((key, w) # rest) lastKey acc =
     (case w of
        DocValue doc \<Rightarrow>
          (case (if \<not> post then Inr True else matchesFilter P (JObj doc) flt) of
             Inl e \<Rightarrow> Inl e
           | Inr ok \<Rightarrow>
               if ok then
                 (if reached maxNeeded (fst acc @ [doc])
                  then Inr (Some key, (fst acc @ [doc], Suc (snd acc)))
                  else collectionScanChunk P post flt maxNeeded rest (Some key)
                         (fst acc @ [doc], Suc (snd acc)))
               else collectionScanChunk P post flt maxNeeded rest (Some key) (fst acc, Suc (snd acc)))
      | _ \<Rightarrow> Inl Error)"

lemma collectionScanChunk_lastKey:
  "collectionScanChunk P post flt maxNeeded entries lastKey acc = Inr (lastKey', acc') \<Longrightarrow>
     lastKey' = lastKey \<and> entries = [] \<or> (\<exists>k \<in> fst ` set entries. lastKey' = Some k)"
proof (induction entries arbitrary: lastKey acc)
  case Nil
  then show ?case by simp
next
  case (Cons entry entries)
  obtain key w where e: "entry = (key, w)" by (cases entry)
  have step: "\<And>a. collectionScanChunk P post flt maxNeeded entries (Some key) a = Inr (lastKey', acc')
      \<Longrightarrow> \<exists>k \<in> fst ` set (entry # entries). lastKey' = Some k"
    using Cons.IH e by fastforce
  show ?case using Cons.prems step unfolding e
    by (auto simp: Let_def split: option.splits kvvalue.splits sum.splits if_splits)
qed

definition nextStartKey :: "string option \<Rightarrow> string option" where
  "nextStartKey lastKey =
     (case lastKey of None \<Rightarrow> None | Some l \<Rightarrow> if l = [] then None else Some (l @ [CHR 0x00]))"

function collectionScanLoop ::
  "platform \<Rightarrow> kvstore \<Rightarrow> bool \<Rightarrow> string \<Rightarrow> jsval \<Rightarrow> nat option
     \<Rightarrow> string option \<Rightarrow> document list \<times> nat \<Rightarrow> error + (document list \<times> nat)" where
  "collectionScanLoop P kv post collection flt maxNeeded lastKey acc =
     (let entries = kvScan kv \<lparr> so_prefix = Some (docPrefix collection),
                                 so_startKey = nextStartKey lastKey,
                                 so_endKey = None, so_limit = Some BATCH_LIMIT \<rparr>
      in if entries = [] then Inr acc
         else case collectionScanChunk P post flt maxNeeded entries lastKey acc of
                Inl e \<Rightarrow> Inl e
              | Inr (lastKey', acc') \<Rightarrow>
                  if reached maxNeeded (fst acc') then Inr acc'
                  else if length entries < BATCH_LIMIT then Inr acc'
                  else collectionScanLoop P kv post collection flt maxNeeded lastKey' acc')"
  by pat_completeness auto
termination
proof (relation "measure (\<lambda>(P, kv, post, collection, flt, maxNeeded, lastKey, acc).
                            length (keysFrom (case nextStartKey lastKey of None \<Rightarrow> [] | Some s \<Rightarrow> s) kv))",
       goal_cases)
  case 1
  show ?case by simp
next
  case (2 P kv post collection flt maxNeeded lastKey acc entries x lastKey' acc')
  from 2(2,3,4) obtain k where k: "k \<in> fst ` set entries" "lastKey' = Some k"
    using collectionScanChunk_lastKey [of P post flt maxNeeded entries lastKey acc lastKey' acc']
    by auto
  then obtain w where w: "(k, w) \<in> set entries" by auto
  then have kv: "(k, w) \<in> set kv" using 2(1) kvScan_subset by blast
  have r: "inScanRange \<lparr> so_prefix = Some (docPrefix collection), so_startKey = nextStartKey lastKey,
                         so_endKey = None, so_limit = Some BATCH_LIMIT \<rparr> k"
    using kvScan_inRange w 2(1) by blast
  then have "startsWith k (docPrefix collection)"
    by (auto simp: inScanRange_def docPrefix_def)
  then have ne: "k \<noteq> []" by (auto simp: startsWith_def docPrefix_def)
  have s: "(case nextStartKey lastKey of None \<Rightarrow> [] | Some s \<Rightarrow> s) = []
           \<or> (case nextStartKey lastKey of None \<Rightarrow> [] | Some s \<Rightarrow> s) \<le> k"
    using r by (auto simp: inScanRange_def split: option.splits)
  show ?case using keysFrom_decreases [OF kv s, of "CHR 0x00"] k(2) ne
    by (simp add: nextStartKey_def)
qed

record QueryOptions =
  qo_limit :: "nat option"
  qo_skip :: "nat option"

record QueryExecutionResult =
  qr_documents :: "document list"
  qr_scannedDocuments :: nat
  qr_usedIndex :: "string option"

definition nonEmpty :: "string option \<Rightarrow> bool" where
  "nonEmpty s = (case s of None \<Rightarrow> False | Some t \<Rightarrow> t \<noteq> [])"

definition executeQuery ::
  "platform \<Rightarrow> kvstore \<Rightarrow> QueryPlan \<Rightarrow> string \<Rightarrow> jsval \<Rightarrow> QueryOptions \<Rightarrow> error + QueryExecutionResult" where
  "executeQuery P kv plan collection flt options =
     (let maxNeeded = (case qo_limit options of
                         None \<Rightarrow> None
                       | Some l \<Rightarrow> Some ((case qo_skip options of None \<Rightarrow> 0 | Some s \<Rightarrow> s) + l));
          scanned =
            (if qp_type plan = IndexScan \<and> nonEmpty (qp_startKey plan) \<and> nonEmpty (qp_endKey plan)
             then indexScanLoop P kv (qp_needsPostFilter plan) collection flt maxNeeded
                    (the (qp_endKey plan)) (the (qp_startKey plan)) ([], 0)
             else collectionScanLoop P kv (qp_needsPostFilter plan) collection flt maxNeeded None ([], 0))
      in case scanned of
           Inl e \<Rightarrow> Inl e
         | Inr (documents, scannedDocuments) \<Rightarrow>
             let skipped = (case qo_skip options of
                              None \<Rightarrow> documents
                            | Some s \<Rightarrow> if s > 0 then drop s documents else documents);
                 limited = (case qo_limit options of
                              None \<Rightarrow> skipped
                            | Some l \<Rightarrow> if l > 0 then take l skipped else skipped)
             in Inr \<lparr> qr_documents = limited, qr_scannedDocuments = scannedDocuments,
                      qr_usedIndex = (if nonEmpty (qp_indexName plan) then qp_indexName plan else None) \<rparr>)"

subsection \<open>Document store\<close>

text \<open>
  The \<^verbatim>\<open>DocumentStore\<close> object: its KV adapter (the in-memory one, which has no
  \<^verbatim>\<open>batchWrite\<close>), the configured size limit, and how many ids \<^verbatim>\<open>generateId\<close> has
  handed out. The per-collection mutex serialises the operations; the model runs them
  one after the other.
\<close>

record DocumentStore =
  kv :: kvstore
  maxDocumentSize :: nat
  idCounter :: nat

definition MAX_COLLECTION_NAME_LENGTH :: nat where
  "MAX_COLLECTION_NAME_LENGTH = 120"

definition isWhitespace :: "char \<Rightarrow> bool" where
  "isWhitespace c = (c \<in> set [CHR 0x09, CHR 0x0A, CHR 0x0B, CHR 0x0C, CHR 0x0D, CHR 0x20, CHR 0xA0])"

fun hasDotDot :: "string \<Rightarrow> bool" where
  "hasDotDot (a # b # rest) = ((a = CHR ''.'' \<and> b = CHR ''.'') \<or> hasDotDot (b # rest))"
| "hasDotDot s = False"

definition COLLECTION_NAME_BLOCKLIST :: "string \<Rightarrow> bool" where
  "COLLECTION_NAME_BLOCKLIST name =
     (list_ex (\<lambda>c. c \<in> set [CHR '':'', CHR ''/'', CHR 0x5C, CHR 0x00]) name
      \<or> list_all isWhitespace name
      \<or> hasDotDot name
      \<or> startsWith name ''system.'')"

definition validateCollectionName :: "string \<Rightarrow> error + unit" where
  "validateCollectionName name =
     (if name = [] then Inl (DocumentStoreError InvalidNamespace (Some ''InvalidNamespace''))
      else if length name > MAX_COLLECTION_NAME_LENGTH
        then Inl (DocumentStoreError InvalidNamespace (Some ''InvalidNamespace''))
      else if COLLECTION_NAME_BLOCKLIST name
        then Inl (DocumentStoreError InvalidNamespace (Some ''InvalidNamespace''))
      else Inr ())"

definition saveMetadata :: "CollectionMetadata \<Rightarrow> DocumentStore \<Rightarrow> DocumentStore" where
  "saveMetadata metadata st =
     st \<lparr> kv := kvPut (encodeMetaKey (cm_name metadata)) (MetaValue metadata) (kv st) \<rparr>"

definition getOrCreateCollection ::
  "platform \<Rightarrow> string \<Rightarrow> DocumentStore \<Rightarrow> (error + CollectionMetadata) \<times> DocumentStore" where
  "getOrCreateCollection P name st =
     (case validateCollectionName name of
        Inl e \<Rightarrow> (Inl e, st)
      | Inr u \<Rightarrow>
          (case kvGet (kv st) (encodeMetaKey name) of
             Some existing \<Rightarrow>
               (case existing of MetaValue metadata \<Rightarrow> (Inr metadata, st) | _ \<Rightarrow> (Inl Error, st))
           | None \<Rightarrow>
               let metadata = \<lparr> cm_name = name,
                                cm_indexes = [\<lparr> ix_name = ''_id_'', ix_field = ''_id'', ix_unique = True \<rparr>],
                                cm_createdAt = date_now P, cm_schemaVersion = 1,
                                cm_documentCount = 0 \<rparr>
               in (Inr metadata, saveMetadata metadata st)))"

definition getCollection :: "string \<Rightarrow> DocumentStore \<Rightarrow> error + CollectionMetadata option" where
  "getCollection name st =
     (case kvGet (kv st) (encodeMetaKey name) of
        None \<Rightarrow> Inr None
      | Some data \<Rightarrow> (case data of MetaValue metadata \<Rightarrow> Inr (Some metadata) | _ \<Rightarrow> Inl Error))"

text \<open>
  What \<^verbatim>\<open>JSON.parse(JSON.stringify(v))\<close> gives back: a non-finite number becomes
  \<open>null\<close>, \<open>-0\<close> becomes \<open>0\<close>, a \<^verbatim>\<open>Date\<close> its ISO string; a function is left out
  of an object and written as \<open>null\<close> in an array. A stored document is kept in this
  form, which is what every later read parses.
\<close>

fun jsonRoundTrip :: "platform \<Rightarrow> jsval \<Rightarrow> jsval"
  and jsonRoundTripElems :: "platform \<Rightarrow> jsval list \<Rightarrow> jsval list"
  and jsonRoundTripProps :: "platform \<Rightarrow> (string \<times> jsval) list \<Rightarrow> (string \<times> jsval) list"
where
  "jsonRoundTrip P (JNum n) =
     (if isFinite n then JNum (if n = 0x8000000000000000 then 0 else n) else JNull)"
| "jsonRoundTrip P (JDate ms) = JStr (to_iso_string P ms)"
| "jsonRoundTrip P (JArr elems) = JArr (jsonRoundTripElems P elems)"
| "jsonRoundTrip P (JObj props) = JObj (jsonRoundTripProps P props)"
| "jsonRoundTrip P v = v"
| "jsonRoundTripElems P [] = []"
| "jsonRoundTripElems P (v # rest) =
     (case v of JFun name \<Rightarrow> JNull | _ \<Rightarrow> jsonRoundTrip P v) # jsonRoundTripElems P rest"
| "jsonRoundTripProps P [] = []"
| "jsonRoundTripProps P ((key, v) # rest) =
     (case v of
        JFun name \<Rightarrow> jsonRoundTripProps P rest
      | _ \<Rightarrow> (key, jsonRoundTrip P v) # jsonRoundTripProps P rest)"

text \<open>
  The own keys of an object enumerate with the array indices first, in ascending
  order, then the other keys in the order they were created. An array index is the
  canonical decimal numeral of a number below \<open>2 ^ 32 - 1\<close>. \<open>setProperty\<close> is the
  assignment \<^verbatim>\<open>doc[key] = v\<close>: an existing key keeps its place, a new one is
  created.
\<close>

definition isDigit :: "char \<Rightarrow> bool" where
  "isDigit c = (c \<in> set ''0123456789'')"

fun digitsValue :: "nat \<Rightarrow> string \<Rightarrow> nat" where
  "digitsValue acc [] = acc"
| "digitsValue acc (c # cs) = digitsValue (10 * acc + (of_char c - 48)) cs"

definition arrayIndex :: "string \<Rightarrow> nat option" where
  "arrayIndex key =
     (if key = [] then None
      else if \<not> list_all isDigit key then None
      else if hd key = CHR ''0'' \<and> key \<noteq> ''0'' then None
      else if length key > 10 then None
      else if digitsValue 0 key < 2 ^ 32 - 1 then Some (digitsValue 0 key)
      else None)"

fun insertIndexed :: "nat \<Rightarrow> string \<Rightarrow> jsval \<Rightarrow> document \<Rightarrow> document" where
  "insertIndexed n key v [] = [(key, v)]"
| "insertIndexed n key v ((k, w) # rest) =
     (case arrayIndex k of
        None \<Rightarrow> (key, v) # (k, w) # rest
      | Some m \<Rightarrow> if m < n then (k, w) # insertIndexed n key v rest else (key, v) # (k, w) # rest)"

definition setProperty :: "document \<Rightarrow> string \<Rightarrow> jsval \<Rightarrow> document" where
  "setProperty doc key v =
     (if key \<in> fst ` set doc then map (\<lambda>(k, w). if k = key then (k, v) else (k, w)) doc
      else case arrayIndex key of
             None \<Rightarrow> doc @ [(key, v)]
           | Some n \<Rightarrow> insertIndexed n key v doc)"

definition removeProperty :: "document \<Rightarrow> string \<Rightarrow> document" where
  "removeProperty doc key = filter (\<lambda>(k, w). k \<noteq> key) doc"

text \<open>\<^verbatim>\<open>{ ...doc, _id: doc._id || this.generateId() }\<close>; the flag says whether an id was generated.\<close>

definition assignId :: "platform \<Rightarrow> nat \<Rightarrow> document \<Rightarrow> document \<times> bool" where
  "assignId P n doc =
     (case map_of doc ''_id'' of
        Some v \<Rightarrow> if truthy v then (doc, False) else (setProperty doc ''_id'' (JStr (fresh_id P n)), True)
      | None \<Rightarrow> (setProperty doc ''_id'' (JStr (fresh_id P n)), True))"

text \<open>The text a template string makes of \<^verbatim>\<open>doc._id\<close>.\<close>

definition idString :: "platform \<Rightarrow> document \<Rightarrow> string" where
  "idString P doc = (case map_of doc ''_id'' of None \<Rightarrow> ''undefined'' | Some v \<Rightarrow> stringOf P v)"

record InsertResult =
  ir_insertedId :: "string option"
  ir_insertedIds :: "string list option"
  ir_insertedCount :: nat

definition commitCount :: "CollectionMetadata \<Rightarrow> string list \<Rightarrow> DocumentStore \<Rightarrow> DocumentStore" where
  "commitCount metadata insertedIds st =
     (if length insertedIds > 0
      then saveMetadata (metadata \<lparr> cm_documentCount := cm_documentCount metadata + int (length insertedIds) \<rparr>) st
      else st)"

definition promote :: "error \<Rightarrow> error" where
  "promote err = (case err of IndexError code \<Rightarrow> DocumentStoreError code None | _ \<Rightarrow> err)"

text \<open>
  The loop over the documents of one chunk. \<open>insertedIds\<close> are the ids of the chunks
  completed before this one, \<open>chunkInsertedIds\<close> those of this chunk so far.
\<close>

fun insertChunk ::
  "platform \<Rightarrow> string \<Rightarrow> CollectionMetadata \<Rightarrow> string list \<Rightarrow> document list \<Rightarrow> string list
     \<Rightarrow> DocumentStore \<Rightarrow> (error + string list) \<times> DocumentStore" where
  "insertChunk P collection metadata insertedIds [] chunkInsertedIds st = (Inr chunkInsertedIds, st)"
| "insertChunk P collection metadata insertedIds (doc # rest) chunkInsertedIds st =
     (let (docWithId, generated) = assignId P (idCounter st) doc;
          st1 = (if generated then st \<lparr> idCounter := Suc (idCounter st) \<rparr> else st);
          docId = idString P docWithId
      in if length (json_stringify P (JObj docWithId)) > maxDocumentSize st1
         then (Inl (DocumentStoreError DocumentTooLarge None), commitCount metadata insertedIds st1)
         else (case onInsert P (kv st1) collection (cm_indexes metadata) docWithId docId of
                 Inl err \<Rightarrow> (Inl (promote err), commitCount metadata insertedIds st1)
               | Inr kv' \<Rightarrow>
                   insertChunk P collection metadata insertedIds rest (chunkInsertedIds @ [docId])
                     (st1 \<lparr> kv := kvPut (encodeDocKey collection docId)
                                     (DocValue (jsonRoundTripProps P docWithId)) kv' \<rparr>)))"

function insertChunks ::
  "platform \<Rightarrow> string \<Rightarrow> CollectionMetadata \<Rightarrow> string list \<Rightarrow> document list
     \<Rightarrow> DocumentStore \<Rightarrow> (error + InsertResult) \<times> DocumentStore" where
  "insertChunks P collection metadata insertedIds documents st =
     (if documents = [] then
        (Inr \<lparr> ir_insertedId = (if length insertedIds = 1 then Some (hd insertedIds) else None),
               ir_insertedIds = (if length insertedIds > 1 then Some insertedIds else None),
               ir_insertedCount = length insertedIds \<rparr>,
         saveMetadata (metadata \<lparr> cm_documentCount := cm_documentCount metadata + int (length insertedIds) \<rparr>) st)
      else
        (case insertChunk P collection metadata insertedIds (take BATCH_LIMIT documents) [] st of
           (Inl e, st') \<Rightarrow> (Inl e, st')
         | (Inr chunkInsertedIds, st') \<Rightarrow>
             insertChunks P collection metadata (insertedIds @ chunkInsertedIds)
               (drop BATCH_LIMIT documents) st'))"
  by pat_completeness auto
termination
  by (relation "measure (\<lambda>(P, collection, metadata, insertedIds, documents, st). length documents)")
     (auto simp: BATCH_LIMIT_def)

definition insertInternal ::
  "platform \<Rightarrow> string \<Rightarrow> document list \<Rightarrow> DocumentStore \<Rightarrow> (error + InsertResult) \<times> DocumentStore" where
  "insertInternal P collection documents st =
     (case getOrCreateCollection P collection st of
        (Inl e, st') \<Rightarrow> (Inl e, st')
      | (Inr metadata, st') \<Rightarrow> insertChunks P collection metadata [] documents st')"

fun sanitizeAll :: "document list \<Rightarrow> error + unit" where
  "sanitizeAll [] = Inr ()"
| "sanitizeAll (doc # rest) =
     (case sanitizeDocument (JObj doc) 0 of Inl e \<Rightarrow> Inl e | Inr u \<Rightarrow> sanitizeAll rest)"

definition insertOp ::
  "platform \<Rightarrow> string \<Rightarrow> document list \<Rightarrow> DocumentStore \<Rightarrow> (error + InsertResult) \<times> DocumentStore" where
  "insertOp P collection documents st =
     (case validateCollectionName collection of
        Inl e \<Rightarrow> (Inl e, st)
      | Inr u \<Rightarrow>
          (case sanitizeAll documents of
             Inl e \<Rightarrow> (Inl e, st)
           | Inr u \<Rightarrow> insertInternal P collection documents st))"

record UpdateSpec =
  us_set :: "document option"
  us_inc :: "(string \<times> 64 word) list option"
  us_unset :: "document option"

record UpdateResult =
  ur_matchedCount :: nat
  ur_modifiedCount :: nat
  ur_upsertedId :: "string option"

definition applySet :: "document option \<Rightarrow> document \<Rightarrow> document" where
  "applySet s doc =
     (case s of None \<Rightarrow> doc | Some entries \<Rightarrow> foldl (\<lambda>d (field, v). setProperty d field v) doc entries)"

definition applyInc :: "platform \<Rightarrow> (string \<times> 64 word) list option \<Rightarrow> document \<Rightarrow> document" where
  "applyInc P s doc =
     (case s of
        None \<Rightarrow> doc
      | Some entries \<Rightarrow>
          foldl (\<lambda>d (field, amount).
                   let currentNum = (case readProperty P (JObj d) field of Some (JNum n) \<Rightarrow> n | _ \<Rightarrow> 0)
                   in setProperty d field (JNum (double_add P currentNum amount))) doc entries)"

definition applyUnset :: "document option \<Rightarrow> document \<Rightarrow> document" where
  "applyUnset s doc =
     (case s of None \<Rightarrow> doc | Some entries \<Rightarrow> foldl (\<lambda>d (field, v). removeProperty d field) doc entries)"

definition isOperatorObject :: "jsval \<Rightarrow> bool" where
  "isOperatorObject v = (case v of JObj props \<Rightarrow> list_ex startsWithDollar (map fst props) | _ \<Rightarrow> False)"

definition stripOperators :: "jsval \<Rightarrow> document" where
  "stripOperators flt =
     filter (\<lambda>(key, v). \<not> startsWithDollar key \<and> \<not> isOperatorObject v) (ownEntries flt)"

definition upsertBase :: "jsval \<Rightarrow> UpdateSpec \<Rightarrow> document" where
  "upsertBase flt update =
     (let baseDoc = applySet (us_set update) (stripOperators flt)
      in case us_inc update of
           None \<Rightarrow> baseDoc
         | Some entries \<Rightarrow> foldl (\<lambda>d (field, amount). setProperty d field (JNum amount)) baseDoc entries)"

definition sanitizeUpdate :: "jsval \<Rightarrow> UpdateSpec \<Rightarrow> error + unit" where
  "sanitizeUpdate flt update =
     (case sanitizeDocument flt 0 of
        Inl e \<Rightarrow> Inl e
      | Inr u \<Rightarrow>
          (case (case us_set update of None \<Rightarrow> Inr () | Some s \<Rightarrow> sanitizeDocument (JObj s) 0) of
             Inl e \<Rightarrow> Inl e
           | Inr u \<Rightarrow>
               (case (case us_inc update of
                        None \<Rightarrow> Inr ()
                      | Some s \<Rightarrow> sanitizeDocument (JObj (map (\<lambda>(k, n). (k, JNum n)) s)) 0) of
                  Inl e \<Rightarrow> Inl e
                | Inr u \<Rightarrow>
                    (case us_unset update of None \<Rightarrow> Inr () | Some s \<Rightarrow> sanitizeDocument (JObj s) 0))))"

definition updateOne ::
  "platform \<Rightarrow> string \<Rightarrow> jsval \<Rightarrow> UpdateSpec \<Rightarrow> bool \<Rightarrow> DocumentStore
     \<Rightarrow> (error + UpdateResult) \<times> DocumentStore" where
  "updateOne P collection flt update upsert st =
     (case validateCollectionName collection of
        Inl e \<Rightarrow> (Inl e, st)
      | Inr u \<Rightarrow>
     (case sanitizeUpdate flt update of
        Inl e \<Rightarrow> (Inl e, st)
      | Inr u \<Rightarrow>
     (case getOrCreateCollection P collection st of
        (Inl e, st1) \<Rightarrow> (Inl e, st1)
      | (Inr metadata, st1) \<Rightarrow>
     (case planQuery P flt (cm_indexes metadata) collection of
        Inl e \<Rightarrow> (Inl e, st1)
      | Inr plan \<Rightarrow>
     (case executeQuery P (kv st1) plan collection flt \<lparr> qo_limit = Some 1, qo_skip = None \<rparr> of
        Inl e \<Rightarrow> (Inl e, st1)
      | Inr result \<Rightarrow>
          (case qr_documents result of
             [] \<Rightarrow>
               if upsert then
                 (case insertInternal P collection [upsertBase flt update] st1 of
                    (Inl e, st2) \<Rightarrow> (Inl e, st2)
                  | (Inr insertResult, st2) \<Rightarrow>
                      (Inr \<lparr> ur_matchedCount = 0, ur_modifiedCount = 0,
                              ur_upsertedId = ir_insertedId insertResult \<rparr>, st2))
               else (Inr \<lparr> ur_matchedCount = 0, ur_modifiedCount = 0, ur_upsertedId = None \<rparr>, st1)
           | doc # others \<Rightarrow>
               let newDoc = applyUnset (us_unset update) (applyInc P (us_inc update) (applySet (us_set update) doc))
               in (case onUpdate P (kv st1) collection (cm_indexes metadata) doc newDoc (idString P doc) of
                     Inl err \<Rightarrow> (Inl (promote err), st1)
                   | Inr kv' \<Rightarrow>
                       (Inr \<lparr> ur_matchedCount = 1, ur_modifiedCount = 1, ur_upsertedId = None \<rparr>,
                        st1 \<lparr> kv := kvPut (encodeDocKey collection (idString P doc))
                                        (DocValue (jsonRoundTripProps P newDoc)) kv' \<rparr>))))))))"

definition emptyStore :: DocumentStore where
  "emptyStore = \<lparr> kv = [], maxDocumentSize = 1024 * 1024, idCounter = 0 \<rparr>"

fun jsonText :: "jsval \<Rightarrow> string"
  and jsonTextElems :: "jsval list \<Rightarrow> string"
  and jsonTextProps :: "(string \<times> jsval) list \<Rightarrow> string"
where
  "jsonText JNull = ''null''"
| "jsonText (JBool b) = (if b then ''true'' else ''false'')"
| "jsonText (JNum n) = ''0x'' @ toString16 (unat n)"
| "jsonText (JStr s) = [CHR 0x22] @ s @ [CHR 0x22]"
| "jsonText (JDate ms) = [CHR 0x22, CHR 0x22]"
| "jsonText (JArr elems) = ''['' @ jsonTextElems elems @ '']''"
| "jsonText (JObj props) = ''{'' @ jsonTextProps props @ ''}''"
| "jsonText (JFun name) = ''null''"
| "jsonTextElems [] = []"
| "jsonTextElems (v # rest) = jsonText v @ (if rest = [] then [] else '','' @ jsonTextElems rest)"
| "jsonTextProps [] = []"
| "jsonTextProps ((key, v) # rest) =
     [CHR 0x22] @ key @ [CHR 0x22] @ '':'' @ jsonText v @ (if rest = [] then [] else '','' @ jsonTextProps rest)"

text \<open>
  A run-time library for the concrete runs below. Its \<open>json_stringify\<close> writes
  strings, booleans, \<open>null\<close>, arrays and objects as \<^verbatim>\<open>JSON.stringify\<close> does when no
  character needs escaping. \<^verbatim>\<open>Number(x)\<close> is \<open>NaN\<close>, as it is for a string that is
  no numeral and for an object; \<^verbatim>\<open>String(x)\<close> is only asked of strings, which the
  model answers itself. A plain object inherits the members of \<^verbatim>\<open>Object.prototype\<close>,
  and under \<^verbatim>\<open>__proto__\<close> that prototype itself, an object without enumerable keys.
  The runs use no other value in these places: their documents hold strings and
  \<open>null\<close> only, none of the strings a numeral that a range operator compares, they
  increment no field, and they read the properties of plain objects only.
\<close>

definition OBJECT_PROTOTYPE :: "string list" where
  "OBJECT_PROTOTYPE =
     [''constructor'', ''hasOwnProperty'', ''isPrototypeOf'', ''propertyIsEnumerable'',
      ''toLocaleString'', ''toString'', ''valueOf'', ''__defineGetter__'', ''__defineSetter__'',
      ''__lookupGetter__'', ''__lookupSetter__'']"

definition plainInherited :: "jsval \<Rightarrow> string \<Rightarrow> jsval option" where
  "plainInherited v key =
     (case v of
        JObj props \<Rightarrow>
          if key \<in> set OBJECT_PROTOTYPE then Some (JFun key)
          else if key = ''__proto__'' then Some (JObj [])
          else None
      | _ \<Rightarrow> None)"

definition plainPlatform :: platform where
  "plainPlatform =
     \<lparr> json_stringify = jsonText, to_number = (\<lambda>v. 0x7FF8000000000000), to_string = jsonText,
       double_add = (\<lambda>a b. a), to_iso_string = (\<lambda>ms. ''1970-01-01T00:00:00.000Z''),
       date_now = 0, fresh_id = (\<lambda>n. replicate (Suc n) CHR ''f''), inherited = plainInherited \<rparr>"

text \<open>
  The fixed-width hexadecimal numeral of \<open>k\<close> digits, and the 64-bit sort key that
  \<open>encodeNumber\<close> writes for a finite double; both serve the proofs only.
\<close>

fun hexfix :: "nat \<Rightarrow> nat \<Rightarrow> string" where
  "hexfix 0 n = []"
| "hexfix (Suc k) n = hexfix k (n div 16) @ [hexDigit (n mod 16)]"

definition ekey :: "64 word \<Rightarrow> nat" where
  "ekey n = (if 0 \<le> dval n then 2 ^ 63 + unat n mod 2 ^ 63 else 2 ^ 64 - 1 - unat n)"

section \<open>Concrete stores and inputs\<close>

definition setA :: UpdateSpec where
  "setA = \<lparr> us_set = Some [(''a'', JStr ''x'')], us_inc = None, us_unset = None \<rparr>"

definition aliceDoc :: document where
  "aliceDoc = [(''_id'', JStr ''1''), (''name'', JStr ''Alice'')]"

definition aliceStore :: DocumentStore where
  "aliceStore = snd (insertOp plainPlatform ''users'' [aliceDoc] emptyStore)"

definition setSameName :: UpdateSpec where
  "setSameName = \<lparr> us_set = Some [(''name'', JStr ''Alice'')], us_inc = None, us_unset = None \<rparr>"

definition setIdB :: UpdateSpec where
  "setIdB = \<lparr> us_set = Some [(''_id'', JStr ''b'')], us_inc = None, us_unset = None \<rparr>"

definition setX :: UpdateSpec where
  "setX = \<lparr> us_set = Some [(''x'', JStr ''1'')], us_inc = None, us_unset = None \<rparr>"

definition storeA :: DocumentStore where
  "storeA = snd (insertOp plainPlatform ''users'' [[(''_id'', JStr ''a'')]] emptyStore)"

definition storeB :: DocumentStore where
  "storeB = snd (updateOne plainPlatform ''users'' (JObj []) setIdB False storeA)"

definition storeC :: DocumentStore where
  "storeC = snd (updateOne plainPlatform ''users'' (JObj []) setX False storeB)"

text \<open>
  The index rows of one document under one index: the index keys of the store that
  decode to the collection, the field and the document's id.
\<close>

definition indexRows :: "kvstore \<Rightarrow> string \<Rightarrow> string \<Rightarrow> string \<Rightarrow> string list" where
  "indexRows s collection field ident =
     filter (\<lambda>k. case decodeIdxKey k of
                    None \<Rightarrow> False
                  | Some d \<Rightarrow> ik_collection d = collection \<and> ik_field d = field \<and> ik_id d = ident)
            (map fst s)"

text \<open>
  The store with the collection \<open>users\<close> as \<^verbatim>\<open>createIndex('users', 'email', true)\<close>
  leaves it on an empty store: the metadata row with the indexes \<open>_id_\<close> and
  \<open>email_1\<close>, no document.
\<close>

definition emailIndex :: IndexDefinition where
  "emailIndex = \<lparr> ix_name = ''email_1'', ix_field = ''email'', ix_unique = True \<rparr>"

definition emailIndexes :: "IndexDefinition list" where
  "emailIndexes = [\<lparr> ix_name = ''_id_'', ix_field = ''_id'', ix_unique = True \<rparr>, emailIndex]"

definition usersMeta :: CollectionMetadata where
  "usersMeta = \<lparr> cm_name = ''users'', cm_indexes = emailIndexes,
                 cm_createdAt = 0, cm_schemaVersion = 1, cm_documentCount = 0 \<rparr>"

definition emailStore :: DocumentStore where
  "emailStore = emptyStore \<lparr> kv := [(''meta:collection:users'', MetaValue usersMeta)] \<rparr>"

definition rangeNe :: jsval where
  "rangeNe = JObj [(''email'', JObj [(''$gte'', JStr ''a''), (''$ne'', JStr ''b@x'')])]"

definition twoUsers :: DocumentStore where
  "twoUsers = snd (insertOp plainPlatform ''users''
      [[(''_id'', JStr ''1''), (''email'', JStr ''a@x'')], [(''_id'', JStr ''2''), (''email'', JStr ''b@x'')]] emailStore)"

definition annDoc :: document where
  "annDoc = [(''name'', JStr ''Ann''), (''email'', JStr ''a@x'')]"

definition bobDoc :: document where
  "bobDoc = [(''name'', JStr ''Bob''), (''email'', JStr ''a@x'')]"

definition annStore :: DocumentStore where
  "annStore = snd (insertOp plainPlatform ''users'' [annDoc] emailStore)"

definition annNull :: document where
  "annNull = [(''name'', JStr ''Ann''), (''email'', JNull)]"

definition bobNull :: document where
  "bobNull = [(''name'', JStr ''Bob''), (''email'', JNull)]"

definition annNullStore :: DocumentStore where
  "annNullStore = snd (insertOp plainPlatform ''users'' [annNull] emailStore)"

section \<open>Index keys decode to what was encoded\<close>

lemma indexOfAux_first:
  "c \<notin> set xs \<Longrightarrow> indexOfAux c (xs @ c # ys) i = Some (i + length xs)"
  by (induction xs arbitrary: i) auto

lemma indexOfAux_none:
  "c \<notin> set xs \<Longrightarrow> indexOfAux c xs i = None"
  by (induction xs arbitrary: i) auto

lemma indexOf_skip:
  "c \<notin> set xs \<Longrightarrow> indexOf (p @ xs @ c # ys) c (length p) = Some (length p + length xs)"
  by (simp add: indexOf_def indexOfAux_first)

lemma lastIndexOfAux_none:
  "c \<notin> set xs \<Longrightarrow> lastIndexOfAux c xs i r = r"
  by (induction xs arbitrary: i r) auto

lemma lastIndexOfAux_last:
  "c \<notin> set ys \<Longrightarrow> lastIndexOfAux c (xs @ c # ys) i r = Some (i + length xs)"
  by (induction xs arbitrary: i r) (auto simp: lastIndexOfAux_none)

lemma lastIndexOf_last:
  "c \<notin> set ys \<Longrightarrow> lastIndexOf (xs @ c # ys) c = Some (length xs)"
  by (simp add: lastIndexOf_def lastIndexOfAux_last)

lemma lastIndexOf_none:
  "c \<notin> set xs \<Longrightarrow> lastIndexOf xs c = None"
  by (simp add: lastIndexOf_def lastIndexOfAux_none)

lemma substring_mid:
  "substring (p @ xs @ ys) (length p) (length p + length xs) = xs"
  by (simp add: substring_def)

lemma decodeIdxKey_parts:
  assumes a: "CHR '':'' \<notin> set a" and b: "CHR '':'' \<notin> set b" and c: "CHR '':'' \<notin> set c"
  shows "decodeIdxKey (a @ CHR '':'' # b @ CHR '':'' # c @ CHR '':'' # rest) =
           (if a \<noteq> ''idx'' then None
            else case lastIndexOf rest IDX_ID_SEP of
                   None \<Rightarrow> None
                 | Some sepIdx \<Rightarrow>
                     Some \<lparr> ik_collection = b, ik_field = c,
                            ik_encodedValue = take sepIdx rest,
                            ik_id = drop (Suc sepIdx) rest \<rparr>)"
proof -
  let ?key = "a @ CHR '':'' # b @ CHR '':'' # c @ CHR '':'' # rest"
  have i1: "indexOf ?key CHR '':'' 0 = Some (length a)"
    using indexOf_skip [of "CHR '':''" a "[]"] a by simp
  have i2: "indexOf ?key CHR '':'' (length a + 1) = Some (length a + 1 + length b)"
    using indexOf_skip [of "CHR '':''" b "a @ [CHR '':'']" "c @ CHR '':'' # rest"] b by simp
  have i3: "indexOf ?key CHR '':'' (length a + 1 + length b + 1) =
              Some (length a + 1 + length b + 1 + length c)"
    using indexOf_skip [of "CHR '':''" c "a @ CHR '':'' # b @ [CHR '':'']" rest] c by simp
  have s1: "substring ?key 0 (length a) = a"
    using substring_mid [of "[]" a] by simp
  have s2: "substring ?key (length a + 1) (length a + 1 + length b) = b"
    using substring_mid [of "a @ [CHR '':'']" b "CHR '':'' # c @ CHR '':'' # rest"] by simp
  have s3: "substring ?key (length a + 1 + length b + 1) (length a + 1 + length b + 1 + length c) = c"
    using substring_mid [of "a @ CHR '':'' # b @ [CHR '':'']" c "CHR '':'' # rest"] by simp
  have s4: "substringFrom ?key (length a + 1 + length b + 1 + length c + 1) = rest"
    using append_eq_conv_conj [of "a @ CHR '':'' # b @ CHR '':'' # c @ [CHR '':'']" rest ?key]
    by (simp add: substringFrom_def)
  show ?thesis
    unfolding decodeIdxKey_def i1 option.case s1
    by (simp only: i2 i3 s2 s3 s4 option.case Let_def substring_def substringFrom_def)
       (simp split: option.splits)
qed

text \<open>
  C6. For collection and field names without \<open>:\<close>, a value that \<open>encodeValue\<close> accepts and
  a document id without the byte \<open>0x1F\<close>, decoding the encoded index key gives back the
  collection, the field, the encoded value and the id. And a key whose tail after the
  third \<open>:\<close> holds no \<open>0x1F\<close> decodes to no result.
\<close>

theorem decodeIdxKey_encodeIdxKey:
  "(CHR '':'' \<notin> set collection \<longrightarrow> CHR '':'' \<notin> set field \<longrightarrow> IDX_ID_SEP \<notin> set ident \<longrightarrow>
      encodeValue P v = Inr ev \<longrightarrow>
      (\<exists>key. encodeIdxKey P collection field v ident = Inr key \<and>
             decodeIdxKey key = Some \<lparr> ik_collection = collection, ik_field = field,
                                       ik_encodedValue = ev, ik_id = ident \<rparr>))
   \<and> (CHR '':'' \<notin> set a \<longrightarrow> CHR '':'' \<notin> set b \<longrightarrow> CHR '':'' \<notin> set c \<longrightarrow>
      IDX_ID_SEP \<notin> set rest \<longrightarrow>
      decodeIdxKey (a @ CHR '':'' # b @ CHR '':'' # c @ CHR '':'' # rest) = None)"
proof (intro conjI impI)
  assume c: "CHR '':'' \<notin> set collection" and f: "CHR '':'' \<notin> set field"
    and i: "IDX_ID_SEP \<notin> set ident" and e: "encodeValue P v = Inr ev"
  have "decodeIdxKey (''idx'' @ CHR '':'' # collection @ CHR '':'' # field @ CHR '':'' # (ev @ IDX_ID_SEP # ident))
          = Some \<lparr> ik_collection = collection, ik_field = field,
                   ik_encodedValue = ev, ik_id = ident \<rparr>"
    using c f i by (subst decodeIdxKey_parts) (simp_all add: lastIndexOf_last)
  then show "\<exists>key. encodeIdxKey P collection field v ident = Inr key \<and>
             decodeIdxKey key = Some \<lparr> ik_collection = collection, ik_field = field,
                                       ik_encodedValue = ev, ik_id = ident \<rparr>"
    by (simp add: encodeIdxKey_def e)
next
  assume "CHR '':'' \<notin> set a" "CHR '':'' \<notin> set b" "CHR '':'' \<notin> set c" "IDX_ID_SEP \<notin> set rest"
  then show "decodeIdxKey (a @ CHR '':'' # b @ CHR '':'' # c @ CHR '':'' # rest) = None"
    by (simp add: decodeIdxKey_parts lastIndexOf_none)
qed

theorem decodeIdxKey_encodeIdxKey_witness:
  "(\<exists>key. encodeIdxKey plainPlatform ''users'' ''email'' (JStr ''a@x'') ''id1'' = Inr key \<and>
          decodeIdxKey key = Some \<lparr> ik_collection = ''users'', ik_field = ''email'',
                                    ik_encodedValue = ''3:a@x'', ik_id = ''id1'' \<rparr>)
   \<and> decodeIdxKey ''idx:users:email:3:a@x'' = None"
  using decodeIdxKey_encodeIdxKey [where collection = "''users''" and field = "''email''"
      and ident = "''id1''" and P = plainPlatform and v = "JStr ''a@x''" and ev = "''3:a@x''"
      and a = "''idx''" and b = "''users''" and c = "''email''" and rest = "''3:a@x''"]
  by (simp add: IDX_ID_SEP_def)

section \<open>Number encoding preserves the numeric order\<close>

lemma length_hexfix [simp]: "length (hexfix k n) = k"
  by (induction k arbitrary: n) auto

lemma hexfix_zero: "hexfix k 0 = replicate k CHR ''0''"
  by (induction k) (auto simp: hexDigit_def replicate_append_same)

lemma length_toString16: "n < 16 ^ k \<Longrightarrow> 0 < k \<Longrightarrow> length (toString16 n) \<le> k"
proof (induction n arbitrary: k rule: toString16.induct)
  case (1 n)
  show ?case
  proof (cases "n < 16")
    case True
    then show ?thesis using "1.prems" by (simp add: toString16.simps [of n])
  next
    case False
    obtain j where k: "k = Suc j" using "1.prems" by (cases k) auto
    have "j > 0" using False "1.prems" k by (cases j) auto
    moreover have "n div 16 < 16 ^ j" using "1.prems" k by (simp add: less_mult_imp_div_less)
    ultimately have "length (toString16 (n div 16)) \<le> j" using "1.IH" False by simp
    then show ?thesis using False k by (simp add: toString16.simps [of n])
  qed
qed

lemma padStart_toString16: "n < 16 ^ k \<Longrightarrow> 0 < k \<Longrightarrow> padStart k CHR ''0'' (toString16 n) = hexfix k n"
proof (induction n arbitrary: k rule: toString16.induct)
  case (1 n)
  obtain j where k: "k = Suc j" using "1.prems" by (cases k) auto
  show ?case
  proof (cases "n < 16")
    case True
    then show ?thesis using k
      by (simp add: toString16.simps [of n] padStart_def hexfix_zero)
  next
    case False
    have j: "j > 0" using False "1.prems" k by (cases j) auto
    have lt: "n div 16 < 16 ^ j" using "1.prems" k by (simp add: less_mult_imp_div_less)
    have ih: "padStart j CHR ''0'' (toString16 (n div 16)) = hexfix j (n div 16)"
      using "1.IH" False j lt by simp
    have len: "length (toString16 (n div 16)) \<le> j" using length_toString16 lt j by simp
    show ?thesis using False k ih len
      by (simp add: toString16.simps [of n] padStart_def Suc_diff_le)
  qed
qed

lemma less_append_same_length:
  "length xs = length ys \<Longrightarrow> xs < ys \<Longrightarrow> xs @ u < ys @ (v :: 'a :: linorder list)"
  by (induction xs ys rule: list_induct2) auto

lemma less_append_same_prefix: "(xs @ u < xs @ v) = (u < (v :: 'a :: linorder list))"
  by (induction xs) auto

lemma of_char_hexDigit: "d < 16 \<Longrightarrow> (of_char (hexDigit d) :: nat) = (if d < 10 then 48 + d else 87 + d)"
proof -
  assume "d < 16"
  then consider "d = 0" | "d = 1" | "d = 2" | "d = 3" | "d = 4" | "d = 5" | "d = 6" | "d = 7"
    | "d = 8" | "d = 9" | "d = 10" | "d = 11" | "d = 12" | "d = 13" | "d = 14" | "d = 15"
    by atomize_elim arith
  then show ?thesis by cases (simp_all add: hexDigit_def)
qed

lemma hexDigit_mono: "d < e \<Longrightarrow> e < 16 \<Longrightarrow> hexDigit d < hexDigit e"
  by (simp add: less_char_def of_char_hexDigit)

lemma hexfix_mono: "a < b \<Longrightarrow> b < 16 ^ k \<Longrightarrow> hexfix k a < hexfix k b"
proof (induction k arbitrary: a b)
  case 0
  then show ?case by simp
next
  case (Suc k)
  have le: "a div 16 \<le> b div 16" using Suc.prems by (simp add: div_le_mono)
  have bk: "b div 16 < 16 ^ k" using Suc.prems by (simp add: less_mult_imp_div_less)
  show ?case
  proof (cases "a div 16 < b div 16")
    case True
    then have "hexfix k (a div 16) < hexfix k (b div 16)" using Suc.IH bk by simp
    then show ?thesis by (simp add: less_append_same_length)
  next
    case False
    then have eq: "a div 16 = b div 16" using le by simp
    then have "a mod 16 < b mod 16" using Suc.prems(1)
      by (metis div_mult_mod_eq nat_add_left_cancel_less)
    then have "hexDigit (a mod 16) < hexDigit (b mod 16)" by (simp add: hexDigit_mono)
    then show ?thesis using eq by (simp add: less_append_same_prefix)
  qed
qed

lemma hexfix_append: "lo < 16 ^ k \<Longrightarrow> hexfix (j + k) (hi * 16 ^ k + lo) = hexfix j hi @ hexfix k lo"
proof (induction k arbitrary: lo)
  case 0
  then show ?case by simp
next
  case (Suc k)
  have e: "hi * 16 ^ Suc k = 16 * (hi * 16 ^ k)" by simp
  have d: "(hi * 16 ^ Suc k + lo) div 16 = hi * 16 ^ k + lo div 16" unfolding e by simp
  have m: "(hi * 16 ^ Suc k + lo) mod 16 = lo mod 16" unfolding e by simp
  have "lo div 16 < 16 ^ k" using Suc.prems by (simp add: less_mult_imp_div_less)
  then show ?case using Suc.IH [of "lo div 16"] d m by (simp del: power_Suc)
qed

lemma unat_low32: "unat (ucast (n :: 64 word) :: 32 word) = unat n mod 2 ^ 32"
  by (simp add: unsigned_ucast_eq take_bit_eq_mod)

lemma unat_high32: "unat (ucast (drop_bit 32 (n :: 64 word)) :: 32 word) = unat n div 2 ^ 32"
proof -
  have "unat n < 2 ^ 64" using unsigned_less [of n] by simp
  then have "unat n div 2 ^ 32 < 2 ^ 32" by (simp add: less_mult_imp_div_less)
  moreover have "unat (ucast (drop_bit 32 n) :: 32 word) = take_bit 32 (drop_bit 32 (unat n))"
    unfolding unsigned_ucast_eq unat_drop_bit_eq by simp
  ultimately show ?thesis
    by (simp add: take_bit_eq_mod drop_bit_eq_div)
qed

lemma unat_not32: "unat (NOT (h :: 32 word)) = 2 ^ 32 - 1 - unat h"
proof -
  have "NOT h = - 1 - h" by (simp add: not_eq_complement)
  moreover have "unat (- 1 - h) = unat (- 1 :: 32 word) - unat h"
    by (rule unat_sub) simp
  ultimately show ?thesis by (simp add: unsigned_minus_1_eq_mask mask_eq_exp_minus_1)
qed

lemma or_bit31_nat: "x < 2 ^ 32 \<Longrightarrow> (x :: nat) OR 2 ^ 31 = 2 ^ 31 + x mod 2 ^ 31"
proof -
  assume x: "x < 2 ^ 32"
  have s: "x OR 2 ^ 31 = set_bit 31 x" by (simp add: set_bit_nat_def)
  have b: "bit x 31 = (2 ^ 31 \<le> x)"
  proof -
    have "x div 2 ^ 31 < 2" using x by (simp add: less_mult_imp_div_less)
    then have "x div 2 ^ 31 = 0 \<or> x div 2 ^ 31 = 1" by linarith
    then show ?thesis by (auto simp: bit_iff_odd div_eq_0_iff)
  qed
  show ?thesis
  proof (cases "2 ^ 31 \<le> x")
    case True
    then have "x mod 2 ^ 31 = x - 2 ^ 31" using x by (simp add: mod_if le_mod_geq)
    then show ?thesis using True b s by (simp add: set_bit_eq)
  next
    case False
    then show ?thesis using b s by (simp add: set_bit_eq)
  qed
qed

lemma unat_or_bit31: "unat ((h :: 32 word) OR 0x80000000) = 2 ^ 31 + unat h mod 2 ^ 31"
proof -
  have "unat h < 2 ^ 32" using unsigned_less [of h] by simp
  then show ?thesis using or_bit31_nat [of "unat h"] by (simp add: unsigned_or_eq)
qed

lemma dmagnitude_unfold:
  "dmagnitude x = (if x div 2 ^ 52 = 0 then x mod 2 ^ 52
                   else (2 ^ 52 + x mod 2 ^ 52) * 2 ^ (x div 2 ^ 52 - 1))"
  unfolding dmagnitude_def Let_def ..

lemma dmagnitude_strict_mono: "x < y \<Longrightarrow> dmagnitude x < dmagnitude y"
proof -
  assume xy: "x < y"
  define B :: nat where "B = 2 ^ 52"
  define ex mx ey my where "ex = x div B" and "mx = x mod B" and "ey = y div B" and "my = y mod B"
  have Bpos: "0 < B" by (simp add: B_def)
  have mx: "mx < B" and my: "my < B" using Bpos by (simp_all add: mx_def my_def)
  have x: "x = ex * B + mx" and y: "y = ey * B + my" by (simp_all add: ex_def mx_def ey_def my_def)
  have le: "ex \<le> ey" using xy by (simp add: ex_def ey_def div_le_mono)
  have dx: "dmagnitude x = (if ex = 0 then mx else (B + mx) * 2 ^ (ex - 1))"
    unfolding dmagnitude_unfold B_def ex_def mx_def ..
  have dy: "dmagnitude y = (if ey = 0 then my else (B + my) * 2 ^ (ey - 1))"
    unfolding dmagnitude_unfold B_def ey_def my_def ..
  show ?thesis
  proof (cases "ex = ey")
    case True
    then have "mx < my" using xy x y by simp
    then show ?thesis using True dx dy by simp
  next
    case False
    then have lt: "ex < ey" using le by simp
    then have ey: "ey \<noteq> 0" by simp
    have p1: "(1::nat) \<le> 2 ^ (ey - 1)" by simp
    have big: "B * 2 ^ (ey - 1) \<le> (B + my) * 2 ^ (ey - 1)" by simp
    show ?thesis
    proof (cases "ex = 0")
      case True
      have "mx < B * 1" using mx by simp
      also have "\<dots> \<le> B * 2 ^ (ey - 1)" using p1 by (rule mult_le_mono2)
      also note big
      finally show ?thesis using True ey dx dy by simp
    next
      case nz: False
      then obtain j where j: "ex = Suc j" by (cases ex) auto
      have "(B + mx) * 2 ^ (ex - 1) < (B + B) * 2 ^ (ex - 1)"
        using mx by simp
      also have "\<dots> = B * 2 ^ ex" using j by simp
      also have "\<dots> \<le> B * 2 ^ (ey - 1)"
      proof -
        have "ex \<le> ey - 1" using lt by simp
        then have "(2::nat) ^ ex \<le> 2 ^ (ey - 1)" by (rule power_increasing) simp
        then show ?thesis by (rule mult_le_mono2)
      qed
      also note big
      finally show ?thesis using nz ey dx dy by simp
    qed
  qed
qed

lemma dmagnitude_less_iff: "(dmagnitude x < dmagnitude y) = (x < y)"
proof
  assume a: "dmagnitude x < dmagnitude y"
  show "x < y"
  proof (rule ccontr)
    assume "\<not> x < y"
    then have "y < x \<or> y = x" by auto
    then show False using a dmagnitude_strict_mono [of y x] by auto
  qed
next
  assume "x < y" then show "dmagnitude x < dmagnitude y" by (rule dmagnitude_strict_mono)
qed

lemma dmagnitude_zero: "dmagnitude 0 = 0"
  unfolding dmagnitude_unfold by simp

lemma dmagnitude_zero_iff: "(dmagnitude x = 0) = (x = 0)"
  using dmagnitude_less_iff [of 0 x] dmagnitude_zero by auto

lemma isFinite_not_special:
  "isFinite n \<Longrightarrow> \<not> isNaN n \<and> n \<noteq> posInfinity \<and> n \<noteq> negInfinity"
  by (auto simp: isFinite_def isNaN_def posInfinity_def negInfinity_def dexp_def)

lemma split_pos:
  fixes u :: nat
  shows "(2 ^ 31 + (u div 2 ^ 32) mod 2 ^ 31) * 16 ^ 8 + u mod 2 ^ 32 = 2 ^ 63 + u mod 2 ^ 63"
proof -
  have "u mod (2 ^ 32 * 2 ^ 31) = 2 ^ 32 * (u div 2 ^ 32 mod 2 ^ 31) + u mod 2 ^ 32"
    by (rule mod_mult2_eq)
  then have e: "u mod 2 ^ 63 = 2 ^ 32 * (u div 2 ^ 32 mod 2 ^ 31) + u mod 2 ^ 32" by simp
  show ?thesis unfolding e by simp
qed

lemma split_neg:
  fixes u :: nat
  assumes "u < 2 ^ 64"
  shows "(2 ^ 32 - 1 - u div 2 ^ 32) * 16 ^ 8 + (2 ^ 32 - 1 - u mod 2 ^ 32) = 2 ^ 64 - 1 - u"
proof -
  define B :: nat where "B = 2 ^ 32"
  define hi lo where "hi = u div B" and "lo = u mod B"
  have B: "0 < B" by (simp add: B_def)
  have BB: "B * B = 2 ^ 64" "(16::nat) ^ 8 = B" by (simp_all add: B_def)
  have lo: "lo < B" using B by (simp add: lo_def)
  have hi: "hi < B" using assms BB(1) B unfolding hi_def
    by (metis less_mult_imp_div_less)
  have u: "u = hi * B + lo" by (simp add: hi_def lo_def)
  have 1: "(B - 1 - hi) * B + hi * B = (B - 1) * B"
    using hi by (simp flip: add_mult_distrib)
  have 2: "(B - 1 - lo) + lo = B - 1" using lo by simp
  have 3: "(B - 1) * B + (B - 1) = B * B - 1" using B
    by (cases B) (simp_all add: algebra_simps)
  have "(B - 1 - hi) * B + (B - 1 - lo) + u = B * B - 1" using 1 2 3 u by linarith
  then have "(B - 1 - hi) * B + (B - 1 - lo) = B * B - 1 - u" by linarith
  then show ?thesis unfolding hi_def lo_def B_def by simp
qed

lemma encodeNumber_finite:
  assumes "isFinite n"
  shows "encodeNumber n = ''2:'' @ hexfix 16 (ekey n)"
proof -
  note sp = isFinite_not_special [OF assms]
  have u: "unat n < 2 ^ 64" using unsigned_less [of n] by simp
  have b32: "unat w < 16 ^ 8" for w :: "32 word" using unsigned_less [of w, where ?'a = nat] by simp
  have pad: "\<And>w :: 32 word. padStart 8 CHR ''0'' (toString16 (unat w)) = hexfix 8 (unat w)"
    using b32 by (simp add: padStart_toString16)
  have cat: "\<And>(a :: 32 word) (b :: 32 word). hexfix 8 (unat a) @ hexfix 8 (unat b) = hexfix 16 (unat a * 16 ^ 8 + unat b)"
    using hexfix_append [of _ 8 8] b32 by simp
  show ?thesis
  proof (cases "0 \<le> dval n")
    case True
    have "unat ((ucast (drop_bit 32 n) :: 32 word) OR 0x80000000) * 16 ^ 8 + unat (ucast n :: 32 word) = ekey n"
      using True split_pos [of "unat n"]
      by (simp only: unat_or_bit31 unat_high32) (simp only: unat_low32 ekey_def if_True)
    then show ?thesis using sp True
      by (simp only: encodeNumber_def Let_def if_False if_True pad cat append_assoc)
  next
    case False
    have "unat (NOT (ucast (drop_bit 32 n) :: 32 word)) * 16 ^ 8 + unat (NOT (ucast n :: 32 word)) = ekey n"
      using False split_neg [OF u]
      by (simp only: unat_not32 unat_high32) (simp only: unat_low32 ekey_def if_False)
    then show ?thesis using sp False
      by (simp only: encodeNumber_def Let_def if_False if_True pad cat append_assoc)
  qed
qed

lemma ekey_bound: "ekey n < 16 ^ 16"
proof -
  have "unat n mod 2 ^ 63 < 2 ^ 63" by simp
  then have "2 ^ 63 + unat n mod 2 ^ 63 < (2::nat) ^ 64" by simp
  moreover have "(2::nat) ^ 64 - 1 - unat n < 2 ^ 64" by simp
  moreover have "(16::nat) ^ 16 = 2 ^ 64" by simp
  ultimately show ?thesis unfolding ekey_def by presburger
qed

lemma ekey_mono:
  assumes "dval a < dval b"
  shows "ekey a < ekey b"
proof -
  define xa xb where "xa = unat a mod 2 ^ 63" and "xb = unat b mod 2 ^ 63"
  have ua: "unat a < 2 ^ 64" and ub: "unat b < 2 ^ 64"
    using unsigned_less [of a] unsigned_less [of b] by simp_all
  have xa: "xa < 2 ^ 63" and xb: "xb < 2 ^ 63" by (simp_all add: xa_def xb_def)
  have hb: "u = 2 ^ 63 + u mod 2 ^ 63" if "2 ^ 63 \<le> u" "u < 2 ^ 64" for u :: nat
  proof -
    have "u mod 2 ^ 63 = (u - 2 ^ 63) mod 2 ^ 63" using that(1) by (rule le_mod_geq)
    also have "\<dots> = u - 2 ^ 63" using that by (intro mod_less) simp
    finally show ?thesis using that(1) by simp
  qed
  have sa: "dsign a \<Longrightarrow> unat a = 2 ^ 63 + xa"
    using ua hb [of "unat a"] unfolding dsign_def xa_def by simp
  have sb: "dsign b \<Longrightarrow> unat b = 2 ^ 63 + xb"
    using ub hb [of "unat b"] unfolding dsign_def xb_def by simp
  have da: "dval a = (if dsign a then - int (dmagnitude xa) else int (dmagnitude xa))"
    by (simp add: dval_def xa_def)
  have db: "dval b = (if dsign b then - int (dmagnitude xb) else int (dmagnitude xb))"
    by (simp add: dval_def xb_def)
  show ?thesis
  proof (cases "0 \<le> dval a")
    case True
    then have pb: "0 \<le> dval b" "0 < dval b" using assms by simp_all
    have nsb: "\<not> dsign b" using pb(2) db by (auto split: if_splits)
    have "xa < xb"
    proof (cases "dsign a")
      case True
      with \<open>0 \<le> dval a\<close> da have "dmagnitude xa = 0" by simp
      then have "xa = 0" by (simp add: dmagnitude_zero_iff)
      moreover have "dmagnitude xb \<noteq> 0" using pb(2) db nsb by simp
      then have "xb \<noteq> 0" by (simp add: dmagnitude_zero_iff)
      ultimately show ?thesis by simp
    next
      case False
      then have "dmagnitude xa < dmagnitude xb" using assms da db nsb by simp
      then show ?thesis by (simp add: dmagnitude_less_iff)
    qed
    then show ?thesis using True pb(1) by (simp add: ekey_def xa_def xb_def)
  next
    case False
    then have sga: "dsign a" using da by (auto split: if_splits)
    have na: "ekey a = 2 ^ 63 - 1 - xa" using False sa [OF sga] by (simp add: ekey_def)
    show ?thesis
    proof (cases "0 \<le> dval b")
      case True
      then have "ekey b \<ge> 2 ^ 63" by (simp add: ekey_def)
      then show ?thesis using na by simp
    next
      case nb: False
      then have sgb: "dsign b" using db by (auto split: if_splits)
      have "ekey b = 2 ^ 63 - 1 - xb" using nb sb [OF sgb] by (simp add: ekey_def)
      moreover have "dmagnitude xb < dmagnitude xa" using assms da db sga sgb by simp
      then have "xb < xa" by (simp add: dmagnitude_less_iff)
      ultimately show ?thesis using na xa by simp
    qed
  qed
qed

text \<open>
  C1. For finite doubles \<open>a\<close> and \<open>b\<close> with \<open>a < b\<close> numerically, whatever their
  signs, \<open>encodeNumber a\<close> is lexicographically smaller than \<open>encodeNumber b\<close>; and
  \<open>-0.0\<close> is encoded as \<open>+0.0\<close> is.
\<close>

theorem encodeNumber_order:
  "(isFinite a \<longrightarrow> isFinite b \<longrightarrow> dval a < dval b \<longrightarrow> encodeNumber a < encodeNumber b)
   \<and> encodeNumber 0x8000000000000000 = encodeNumber 0"
proof (intro conjI impI)
  assume fa: "isFinite a" and fb: "isFinite b" and lt: "dval a < dval b"
  have "hexfix 16 (ekey a) < hexfix 16 (ekey b)"
    using ekey_mono [OF lt] ekey_bound [of b] by (rule hexfix_mono)
  then show "encodeNumber a < encodeNumber b"
    by (simp add: encodeNumber_finite fa fb)
next
  have f: "isFinite (0x8000000000000000 :: 64 word)" "isFinite (0 :: 64 word)"
    by (simp_all add: isFinite_def dexp_def)
  have "ekey 0x8000000000000000 = ekey 0"
    by (simp add: ekey_def dval_def dsign_def dmagnitude_zero)
  then show "encodeNumber 0x8000000000000000 = encodeNumber 0"
    by (simp only: encodeNumber_finite f)
qed

theorem encodeNumber_order_witness:
  "isFinite (0xBFF0000000000000 :: 64 word) \<and> isFinite (0x4000000000000000 :: 64 word)
   \<and> dval 0xBFF0000000000000 < dval 0x4000000000000000
   \<and> encodeNumber 0xBFF0000000000000 < encodeNumber 0x4000000000000000"
  using encodeNumber_order [of "0xBFF0000000000000" "0x4000000000000000"]
  by (simp add: isFinite_def dexp_def dval_def dsign_def dmagnitude_unfold)


section \<open>The depth cap of the sanitizer\<close>

lemma add_max_le: "(a::nat) + max b c \<le> n \<longleftrightarrow> a + b \<le> n \<and> a + c \<le> n"
  by auto

lemma less_add_max: "n < (a::nat) + max b c \<longleftrightarrow> n < a + b \<or> n < a + c"
  by auto

lemma sanitize_shallow:
  "noDangerousKeys doc \<Longrightarrow> doc \<noteq> JNull \<Longrightarrow> depth \<le> 20 \<Longrightarrow> depth + height doc \<le> 21 \<Longrightarrow>
     sanitizeDocument doc depth = Inr ()"
  "noDangerousKeysProps props \<Longrightarrow> depth + heightProps props \<le> 20 \<Longrightarrow>
     sanitizeProps props depth = Inr ()"
  "noDangerousKeysElems elems \<Longrightarrow> depth + heightElems elems \<le> 20 \<Longrightarrow>
     sanitizeElems elems depth = Inr ()"
  "noDangerousKeys val \<Longrightarrow> depth + height val \<le> 20 \<Longrightarrow>
     sanitizeValue val depth = Inr ()"
  "noDangerousKeysElems items \<Longrightarrow> depth1 + heightElems items \<le> 21 \<Longrightarrow>
     sanitizeItems items depth1 = Inr ()"
proof (induction doc depth and props depth and elems depth and val depth and items depth1
       rule: sanitizeDocument_sanitizeProps_sanitizeElems_sanitizeValue_sanitizeItems.induct)
  case (1 doc depth)
  then show ?case by (cases doc) auto
next
  case (3 key val rest depth)
  then show ?case by (auto simp: add_max_le split: sum.splits if_splits)
next
  case (5 val rest depth)
  then show ?case by (auto simp: add_max_le split: sum.splits if_splits)
next
  case (6 props depth)
  then show ?case by auto
next
  case (7 items depth)
  then show ?case by auto
qed (auto simp: add_max_le split: sum.splits if_splits jsval.splits)

lemma sanitize_deep:
  "noDangerousKeys doc \<Longrightarrow> doc \<noteq> JNull \<Longrightarrow>
     (sanitizeDocument doc depth = Inr () \<or> sanitizeDocument doc depth = Inl (DocumentStoreError DocumentTooLarge None))
     \<and> (21 < depth + objectHeight doc \<longrightarrow>
            sanitizeDocument doc depth = Inl (DocumentStoreError DocumentTooLarge None))"
  "noDangerousKeysProps props \<Longrightarrow> depth \<le> 20 \<Longrightarrow>
     (sanitizeProps props depth = Inr () \<or> sanitizeProps props depth = Inl (DocumentStoreError DocumentTooLarge None))
     \<and> (20 < depth + objectHeightProps props \<longrightarrow>
            sanitizeProps props depth = Inl (DocumentStoreError DocumentTooLarge None))"
  "noDangerousKeysElems elems \<Longrightarrow> depth \<le> 20 \<Longrightarrow>
     (sanitizeElems elems depth = Inr () \<or> sanitizeElems elems depth = Inl (DocumentStoreError DocumentTooLarge None))
     \<and> (20 < depth + objectHeightElems elems \<longrightarrow>
            sanitizeElems elems depth = Inl (DocumentStoreError DocumentTooLarge None))"
  "noDangerousKeys val \<Longrightarrow> depth \<le> 20 \<Longrightarrow>
     (sanitizeValue val depth = Inr () \<or> sanitizeValue val depth = Inl (DocumentStoreError DocumentTooLarge None))
     \<and> (20 < depth + objectHeight val \<longrightarrow>
            sanitizeValue val depth = Inl (DocumentStoreError DocumentTooLarge None))"
  "noDangerousKeysElems items \<Longrightarrow> depth1 \<le> 21 \<Longrightarrow>
     (sanitizeItems items depth1 = Inr () \<or> sanitizeItems items depth1 = Inl (DocumentStoreError DocumentTooLarge None))
     \<and> (21 < depth1 + objectHeightElems items \<longrightarrow>
            sanitizeItems items depth1 = Inl (DocumentStoreError DocumentTooLarge None))"
proof (induction doc depth and props depth and elems depth and val depth and items depth1
       rule: sanitizeDocument_sanitizeProps_sanitizeElems_sanitizeValue_sanitizeItems.induct)
  case (1 doc depth)
  then show ?case by (cases doc) auto
next
  case (3 key val rest depth)
  then show ?case by (auto simp: less_add_max split: sum.splits if_splits)
next
  case (5 val rest depth)
  then show ?case by (auto simp: less_add_max split: sum.splits if_splits)
next
  case (6 props depth)
  then show ?case by auto
next
  case (7 items depth)
  then show ?case by auto
qed (auto simp: less_add_max split: sum.splits if_splits jsval.splits)

lemma height_nested: "height (nested n) = Suc n"
  by (induction n) auto

lemma objectHeight_nested: "objectHeight (nested n) = Suc n"
  by (induction n) auto

lemma noDangerousKeys_nested: "noDangerousKeys (nested n)"
  by (induction n) (auto simp: DANGEROUS_KEYS_def)

lemma height_arrays: "height (arrays n) = Suc n"
  by (induction n) auto

lemma noDangerousKeys_arrays: "noDangerousKeys (arrays n)"
  by (induction n) auto

lemma sanitizeValue_arrays:
  "depth + k \<le> 20 \<Longrightarrow> sanitizeValue (arrays (2 * k)) depth = Inr ()"
proof (induction k arbitrary: depth)
  case 0
  show ?case by simp
next
  case (Suc k)
  have "sanitizeValue (arrays (2 * k)) (Suc depth) = Inr ()"
    using Suc.IH [of "Suc depth"] Suc.prems by simp
  then show ?case using Suc.prems by simp
qed

text \<open>
  Two documents nested more than 20 deep that are not refused with code 10334, and a
  filter without any nesting that does not pass. A dangerous key met first wins:
  \<open>dangerousDeep\<close> is nested 21 deep and is refused with code 2 (BadValue). An array
  directly under a key or directly inside an array is not counted: \<open>arrayDeep\<close> is
  free of the dangerous keys, nested 41 deep, and passes. The filter \<open>null\<close> has no key
  and no nesting, and ends in a \<^verbatim>\<open>TypeError\<close>.
\<close>

theorem sanitizeDocument_depth_counterexample:
  "nestingDepth dangerousDeep = 21
   \<and> sanitizeDocument dangerousDeep 0 = Inl (DocumentStoreError 2 (Some ''BadValue''))
   \<and> nestingDepth arrayDeep = 41
   \<and> noDangerousKeys arrayDeep
   \<and> sanitizeDocument arrayDeep 0 = Inr ()
   \<and> nestingDepth JNull = 0
   \<and> noDangerousKeys JNull
   \<and> sanitizeDocument JNull 0 = Inl TypeError"
proof -
  have "sanitizeValue (arrays 40) 0 = Inr ()"
    using sanitizeValue_arrays [of 0 20] by simp
  then show ?thesis
    by (simp add: nestingDepth_def dangerousDeep_def arrayDeep_def height_nested height_arrays
          noDangerousKeys_arrays DANGEROUS_KEYS_def BadValue_def)
qed

text \<open>
  C10 (amended). For a document or filter other than \<open>null\<close> that is free of the
  dangerous keys: when its object/array nesting depth is at most 20, sanitization passes
  without error; when its nesting depth counted in objects alone exceeds 20,
  sanitization raises the error with code 10334 (DocumentTooLarge); and sanitization
  raises no other error.
\<close>

theorem sanitizeDocument_depth:
  "noDangerousKeys doc \<and> doc \<noteq> JNull \<longrightarrow>
     (nestingDepth doc \<le> 20 \<longrightarrow> sanitizeDocument doc 0 = Inr ())
     \<and> (20 < objectDepth doc \<longrightarrow> sanitizeDocument doc 0 = Inl (DocumentStoreError 10334 None))
     \<and> (sanitizeDocument doc 0 = Inr () \<or> sanitizeDocument doc 0 = Inl (DocumentStoreError 10334 None))"
  using sanitize_shallow(1) [of doc 0] sanitize_deep(1) [of doc 0]
  by (auto simp: nestingDepth_def objectDepth_def DocumentTooLarge_def)

theorem sanitizeDocument_depth_witness:
  "noDangerousKeys (nested 20) \<and> nestingDepth (nested 20) = 20
   \<and> sanitizeDocument (nested 20) 0 = Inr ()
   \<and> noDangerousKeys (nested 21) \<and> objectDepth (nested 21) = 21
   \<and> sanitizeDocument (nested 21) 0 = Inl (DocumentStoreError 10334 None)"
  using sanitizeDocument_depth [of "nested 20"] sanitizeDocument_depth [of "nested 21"]
  by (simp add: nestingDepth_def objectDepth_def height_nested objectHeight_nested noDangerousKeys_nested
        del: nested.simps)
     (simp add: eval_nat_numeral)

section \<open>The store on concrete inputs\<close>

lemmas store_defs =
  updateOne_def insertOp_def insertInternal_def emptyStore_def plainPlatform_def validateCollectionName_def
  MAX_COLLECTION_NAME_LENGTH_def COLLECTION_NAME_BLOCKLIST_def isWhitespace_def startsWith_def
  sanitizeUpdate_def DANGEROUS_KEYS_def getOrCreateCollection_def getCollection_def kvGet_def encodeMetaKey_def
  encodeDocKey_def saveMetadata_def ownEntries_def collectionScanPlan_def indexScanPlan_def
  executeQuery_def nonEmpty_def kvScan_def inScanRange_def docPrefix_def idxPrefix_def nextStartKey_def
  BATCH_LIMIT_def Let_def assignId_def idString_def stringOf_def truthy_def onInsert_def onUpdate_def
  checkUnique_def encodeIdxKey_def applyPuts_def applyDeletes_def kvDelete_def commitCount_def promote_def
  applySet_def applyInc_def applyUnset_def setProperty_def removeProperty_def stripOperators_def
  upsertBase_def isOperatorObject_def startsWithDollar_def otherFields_def hasComparison_def
  computeIndexRange_def subFilters_def getProperty_def reached_def stringifyOpt_def isNullish_def
  matchesField_def getNestedField_def typeOf_def deepEqualsOpt_def decodeIdxKey_def indexOf_def
  lastIndexOf_def substring_def substringFrom_def IDX_ID_SEP_def DuplicateKey_def readProperty_def
  plainInherited_def OBJECT_PROTOTYPE_def arrayIndex_def isDigit_def jsonStringify_def templateText_def

lemmas email_defs =
  emailIndex_def emailIndexes_def usersMeta_def emailStore_def annDoc_def bobDoc_def annStore_def
  annNull_def bobNull_def annNullStore_def


text \<open>
  C7. On a store without the collection, \<open>updateOne\<close> without upsert returns zero counts,
  but it has gone through \<open>getOrCreateCollection\<close>: the metadata row now exists.
\<close>

theorem updateOne_creates_metadata:
  "kvGet (kv emptyStore) (encodeMetaKey ''ghost'') = None
   \<and> fst (updateOne P ''ghost'' (JObj []) setA False emptyStore)
       = Inr \<lparr> ur_matchedCount = 0, ur_modifiedCount = 0, ur_upsertedId = None \<rparr>
   \<and> kvGet (kv (snd (updateOne P ''ghost'' (JObj []) setA False emptyStore))) (encodeMetaKey ''ghost'')
       = Some (MetaValue \<lparr> cm_name = ''ghost'',
                 cm_indexes = [\<lparr> ix_name = ''_id_'', ix_field = ''_id'', ix_unique = True \<rparr>],
                 cm_createdAt = date_now P, cm_schemaVersion = 1, cm_documentCount = 0 \<rparr>)"
  by (simp add: store_defs setA_def)

text \<open>
  C8. \<open>updateOne\<close> with a \<open>$set\<close> that writes the value the document already has leaves
  the store as it was and still reports \<open>modifiedCount = 1\<close>.
\<close>

theorem updateOne_unchanged_reports_modified:
  "updateOne plainPlatform ''users'' (JObj [(''_id'', JStr ''1'')]) setSameName False aliceStore
     = (Inr \<lparr> ur_matchedCount = 1, ur_modifiedCount = 1, ur_upsertedId = None \<rparr>, aliceStore)
   \<and> kvGet (kv aliceStore) (encodeDocKey ''users'' ''1'') = Some (DocValue aliceDoc)"
  by (simp add: store_defs aliceDoc_def aliceStore_def setSameName_def)

text \<open>
  C5. A batch of three documents whose second repeats the \<open>_id\<close> of the first ends with
  DuplicateKey at the second; the first is stored, the others are not, and the
  persisted \<open>documentCount\<close> is still 0, not 1.
\<close>

theorem insertOp_duplicate_leaves_count:
  "fst (insertOp plainPlatform ''users''
          [[(''_id'', JStr ''1''), (''n'', JStr ''a'')], [(''_id'', JStr ''1''), (''n'', JStr ''b'')],
           [(''_id'', JStr ''3'')]] emptyStore)
     = Inl (DocumentStoreError 11000 None)
   \<and> map fst (kv (snd (insertOp plainPlatform ''users''
          [[(''_id'', JStr ''1''), (''n'', JStr ''a'')], [(''_id'', JStr ''1''), (''n'', JStr ''b'')],
           [(''_id'', JStr ''3'')]] emptyStore)))
     = [''doc:users:1'', ''idx:users:_id:3:1'' @ [CHR 0x1F] @ ''1'', ''meta:collection:users'']
   \<and> kvGet (kv (snd (insertOp plainPlatform ''users''
          [[(''_id'', JStr ''1''), (''n'', JStr ''a'')], [(''_id'', JStr ''1''), (''n'', JStr ''b'')],
           [(''_id'', JStr ''3'')]] emptyStore))) (encodeDocKey ''users'' ''1'')
     = Some (DocValue [(''_id'', JStr ''1''), (''n'', JStr ''a'')])
   \<and> getCollection ''users'' (snd (insertOp plainPlatform ''users''
          [[(''_id'', JStr ''1''), (''n'', JStr ''a'')], [(''_id'', JStr ''1''), (''n'', JStr ''b'')],
           [(''_id'', JStr ''3'')]] emptyStore))
     = Inr (Some \<lparr> cm_name = ''users'',
                 cm_indexes = [\<lparr> ix_name = ''_id_'', ix_field = ''_id'', ix_unique = True \<rparr>],
                 cm_createdAt = 0, cm_schemaVersion = 1, cm_documentCount = 0 \<rparr>)"
  by (simp add: store_defs)

text \<open>
  C2. Three successful mutations: insert \<open>{_id: a}\<close>, \<open>updateOne\<close> with
  \<open>$set: {_id: b}\<close>, \<open>updateOne\<close> with \<open>$set: {x: 1}\<close>. Two document rows are then
  stored and the \<open>_id_\<close> index holds one row: the document stored under \<open>doc:users:b\<close>
  has \<open>_id = b\<close> and no index row.
\<close>

theorem update_of_id_breaks_index_invariant:
  "fst (insertOp plainPlatform ''users'' [[(''_id'', JStr ''a'')]] emptyStore)
     = Inr \<lparr> ir_insertedId = Some ''a'', ir_insertedIds = None, ir_insertedCount = 1 \<rparr>
   \<and> fst (updateOne plainPlatform ''users'' (JObj []) setIdB False storeA)
     = Inr \<lparr> ur_matchedCount = 1, ur_modifiedCount = 1, ur_upsertedId = None \<rparr>
   \<and> fst (updateOne plainPlatform ''users'' (JObj []) setX False storeB)
     = Inr \<lparr> ur_matchedCount = 1, ur_modifiedCount = 1, ur_upsertedId = None \<rparr>
   \<and> map fst (kv storeC)
     = [''doc:users:a'', ''doc:users:b'', ''idx:users:_id:3:b'' @ [CHR 0x1F] @ ''a'', ''meta:collection:users'']
   \<and> kvGet (kv storeC) (encodeDocKey ''users'' ''b'') = Some (DocValue [(''_id'', JStr ''b''), (''x'', JStr ''1'')])
   \<and> indexRows (kv storeC) ''users'' ''_id'' ''b'' = []"
  by (simp add: store_defs setIdB_def setX_def storeA_def storeB_def storeC_def indexRows_def)

text \<open>
  C4. For \<open>{email: {$gte: a, $ne: b@x}}\<close> with an index on \<open>email\<close> the plan is an index
  scan with \<open>needsPostFilter = false\<close>, although the condition uses \<open>$ne\<close>; executing
  it returns the document with \<open>email = b@x\<close>, which the filter does not match.
\<close>

theorem planQuery_ignores_non_range_operator:
  "planQuery plainPlatform rangeNe emailIndexes ''users''
     = Inr \<lparr> qp_type = IndexScan, qp_indexField = Some ''email'', qp_indexName = Some ''email_1'',
             qp_startKey = Some (''idx:users:email:3:a'' @ [CHR 0x1F]),
             qp_endKey = Some (''idx:users:email:'' @ [CHR 0xFF]),
             qp_needsPostFilter = False, qp_estimatedCost = 10 \<rparr>
   \<and> getCollection ''users'' twoUsers
     = Inr (Some \<lparr> cm_name = ''users'', cm_indexes = emailIndexes,
                   cm_createdAt = 0, cm_schemaVersion = 1, cm_documentCount = 2 \<rparr>)
   \<and> executeQuery plainPlatform (kv twoUsers)
        \<lparr> qp_type = IndexScan, qp_indexField = Some ''email'', qp_indexName = Some ''email_1'',
          qp_startKey = Some (''idx:users:email:3:a'' @ [CHR 0x1F]),
          qp_endKey = Some (''idx:users:email:'' @ [CHR 0xFF]),
          qp_needsPostFilter = False, qp_estimatedCost = 10 \<rparr>
        ''users'' rangeNe \<lparr> qo_limit = Some 1000, qo_skip = None \<rparr>
     = Inr \<lparr> qr_documents = [[(''_id'', JStr ''1''), (''email'', JStr ''a@x'')],
                              [(''_id'', JStr ''2''), (''email'', JStr ''b@x'')]],
             qr_scannedDocuments = 2, qr_usedIndex = Some ''email_1'' \<rparr>
   \<and> matchesFilter plainPlatform (JObj [(''_id'', JStr ''2''), (''email'', JStr ''b@x'')]) rangeNe = Inr False"
  by (simp add: store_defs email_defs rangeNe_def twoUsers_def numberOf_def
        rangeMatches_def compareValues_def isNaN_def dexp_def dmant_def)

section \<open>The disjunction of the residual filter\<close>

lemma matchesSome_iff:
  "\<forall>f \<in> set subs. \<exists>b. matchesFilter P doc f = Inr b \<Longrightarrow>
     matchesSome P doc subs = Inr (\<exists>f \<in> set subs. matchesFilter P doc f = Inr True)"
  by (induction subs) auto

text \<open>An empty \<open>$or\<close> array does not reject: the filter matches the document.\<close>

theorem matchesFilter_or_counterexample:
  "matchesFilter plainPlatform (JObj aliceDoc) (JObj [(''$or'', JArr [])]) = Inr True"
  by simp

text \<open>
  C9 (amended). When no sub-filter raises, the filter \<open>{$or: [f1, ...]}\<close> with a non-empty
  array matches a document exactly when at least one sub-filter matches it, and with
  an empty array it matches every document.
\<close>

theorem matchesFilter_or:
  "(\<forall>f \<in> set subs. \<exists>b. matchesFilter P doc f = Inr b) \<longrightarrow>
     matchesFilter P doc (JObj [(''$or'', JArr subs)])
       = Inr (subs = [] \<or> (\<exists>f \<in> set subs. matchesFilter P doc f = Inr True))"
  by (auto simp: matchesSome_iff)

theorem matchesFilter_or_witness:
  "matchesFilter plainPlatform (JObj aliceDoc) (JObj [(''name'', JStr ''Bob'')]) = Inr False
   \<and> matchesFilter plainPlatform (JObj aliceDoc) (JObj [(''_id'', JStr ''1'')]) = Inr True
   \<and> matchesFilter plainPlatform (JObj aliceDoc)
        (JObj [(''$or'', JArr [JObj [(''name'', JStr ''Bob'')], JObj [(''_id'', JStr ''1'')]])])
       = Inr True"
  using matchesFilter_or [of "[JObj [(''name'', JStr ''Bob'')], JObj [(''_id'', JStr ''1'')]]"
                            plainPlatform "JObj aliceDoc"]
  by (auto simp: aliceDoc_def matchesField_def getNestedField_def typeOf_def readProperty_def getProperty_def
        ownEntries_def deepEqualsOpt_def)

section \<open>A unique index rejects a second document with the same value\<close>

lemma map_of_kvPut: "map_of (kvPut k v s) = (map_of s)(k \<mapsto> v)"
  by (induction s) (auto simp: fun_eq_iff)

lemma keys_kvPut: "fst ` set (kvPut k v s) = insert k (fst ` set s)"
proof (induction s)
  case Nil
  show ?case by simp
next
  case (Cons e s)
  obtain a b where e: "e = (a, b)" by (cases e)
  show ?case unfolding e using Cons.IH
    by (cases "k = a"; cases "k < a") (simp_all add: insert_commute)
qed

lemma keys_applyPuts: "fst ` set (applyPuts puts s) = set puts \<union> fst ` set s"
  unfolding applyPuts_def
  by (induction puts arbitrary: s) (auto simp: keys_kvPut)

lemma map_of_applyPuts: "k \<notin> set puts \<Longrightarrow> map_of (applyPuts puts s) k = map_of s k"
  unfolding applyPuts_def
  by (induction puts arbitrary: s) (auto simp: map_of_kvPut)

lemma kvScan_prefix_nonempty:
  assumes "k \<in> fst ` set s" and "startsWith k p"
  shows "kvScan s \<lparr> so_prefix = Some p, so_startKey = None, so_endKey = None, so_limit = Some 2 \<rparr> \<noteq> []"
proof -
  obtain w where "(k, w) \<in> set s" using assms(1) by auto
  then have "\<exists>x \<in> set s. case x of (k, w) \<Rightarrow> inScanRange \<lparr> so_prefix = Some p, so_startKey = None,
                 so_endKey = None, so_limit = Some 2 \<rparr> k"
    using assms(2) by (auto simp: inScanRange_def)
  then have "filter (\<lambda>(k, w). inScanRange \<lparr> so_prefix = Some p, so_startKey = None,
                 so_endKey = None, so_limit = Some 2 \<rparr> k) s \<noteq> []"
    unfolding filter_empty_conv by blast
  then show ?thesis by (simp add: kvScan_def)
qed

lemma encodeIdxKey_Inr:
  "encodeValue P v = Inr ev \<Longrightarrow>
     encodeIdxKey P c f v ident = Inr (idxPrefix c f @ ev @ [CHR 0x1F] @ ident)"
  by (simp add: encodeIdxKey_def idxPrefix_def IDX_ID_SEP_def)

lemma encodeIdxKey_cases:
  "encodeIdxKey P c f v ident = Inr key \<Longrightarrow>
     \<exists>ev. encodeValue P v = Inr ev \<and> key = idxPrefix c f @ ev @ [CHR 0x1F] @ ident"
  by (auto simp: encodeIdxKey_def idxPrefix_def IDX_ID_SEP_def split: sum.splits)

lemma readProperty_own: "map_of doc f = Some v \<Longrightarrow> readProperty P (JObj doc) f = Some v"
  by (simp add: readProperty_def getProperty_def ownEntries_def)

lemma onInsertPlan_contains:
  "onInsertPlan P s c ixs doc ident = Inr puts \<Longrightarrow> ix \<in> set ixs \<Longrightarrow>
     readProperty P (JObj doc) (ix_field ix) = Some v \<Longrightarrow> v \<noteq> JNull \<Longrightarrow>
     \<exists>key. encodeIdxKey P c (ix_field ix) v ident = Inr key \<and> key \<in> set puts"
proof (induction ixs arbitrary: puts)
  case Nil
  then show ?case by simp
next
  case (Cons ix0 ixs)
  show ?case
  proof (cases "ix = ix0")
    case True
    then show ?thesis using Cons.prems
      by (auto split: sum.splits if_splits)
  next
    case False
    then have "ix \<in> set ixs" using Cons.prems by simp
    then show ?thesis using Cons.prems Cons.IH
      by (auto split: option.splits sum.splits if_splits)
  qed
qed

lemma onInsertPlan_keys:
  "onInsertPlan P s c ixs doc ident = Inr puts \<Longrightarrow> k \<in> set puts \<Longrightarrow> startsWith k ''idx:''"
proof (induction ixs arbitrary: puts)
  case Nil
  then show ?case by simp
next
  case (Cons ix0 ixs)
  then show ?case
    by (auto simp: startsWith_def encodeIdxKey_def split: option.splits sum.splits if_splits)
qed

lemma uniqueLoop_plain: "existing \<noteq> [] \<Longrightarrow> uniqueLoop False ident existing = Inl (IndexError DuplicateKey)"
  by (cases existing) auto

lemma checkUnique_plain_cases:
  "encodeValue P v = Inr ev \<Longrightarrow>
     checkUnique P s c ix v ident False = Inr () \<or> checkUnique P s c ix v ident False = Inl (IndexError DuplicateKey)"
  unfolding checkUnique_def Let_def
  by (cases "kvScan s \<lparr>so_prefix = Some (idxPrefix c (ix_field ix) @ ev @ [CHR 0x1F]), so_startKey = None,
                        so_endKey = None, so_limit = Some 2\<rparr>") auto

lemma checkUnique_duplicate:
  assumes "encodeValue P v = Inr ev" and "k \<in> fst ` set s"
    and "startsWith k (idxPrefix c (ix_field ix) @ ev @ [CHR 0x1F])"
  shows "checkUnique P s c ix v ident False = Inl (IndexError DuplicateKey)"
  using kvScan_prefix_nonempty [OF assms(2,3)] assms(1)
  by (simp add: checkUnique_def uniqueLoop_plain)

lemma onInsertPlan_duplicate:
  assumes "ix \<in> set ixs" and "ix_unique ix" and "readProperty P (JObj doc) (ix_field ix) = Some v"
    and "v \<noteq> JNull"
    and "encodeValue P v = Inr ev" and "k \<in> fst ` set s"
    and "startsWith k (idxPrefix c (ix_field ix) @ ev @ [CHR 0x1F])"
    and "\<forall>ix' \<in> set ixs. \<forall>w. readProperty P (JObj doc) (ix_field ix') = Some w
           \<longrightarrow> (\<exists>e. encodeValue P w = Inr e)"
  shows "onInsertPlan P s c ixs doc ident = Inl (IndexError DuplicateKey)"
  using assms(1,8)
proof (induction ixs)
  case Nil
  then show ?case by simp
next
  case (Cons ix0 ixs)
  show ?case
  proof (cases "ix = ix0")
    case True
    then show ?thesis
      using assms(2-5) checkUnique_duplicate [OF assms(5,6,7), of ident]
      by simp
  next
    case False
    then have ih: "onInsertPlan P s c ixs doc ident = Inl (IndexError DuplicateKey)"
      using Cons by simp
    show ?thesis
    proof (cases "readProperty P (JObj doc) (ix_field ix0)")
      case None
      then show ?thesis using ih by simp
    next
      case (Some w)
      then obtain e where e: "encodeValue P w = Inr e" using Cons.prems(2) by auto
      show ?thesis
        using Some ih e checkUnique_plain_cases [OF e, of s c ix0 ident] encodeIdxKey_Inr [OF e, of c "ix_field ix0" ident]
        by auto
    qed
  qed
qed

lemma map_of_insertIndexed: "k \<noteq> key \<Longrightarrow> map_of (insertIndexed n key v doc) k = map_of doc k"
  by (induction doc) (auto split: option.splits)

lemma map_of_setProperty: "k \<noteq> key \<Longrightarrow> map_of (setProperty doc key v) k = map_of doc k"
proof -
  assume ne: "k \<noteq> key"
  have "map_of (map (\<lambda>(k', w). if k' = key then (k', v) else (k', w)) doc) k = map_of doc k"
    using ne by (induction doc) auto
  moreover have "map_of (doc @ [(key, v)]) k = map_of doc k"
    using ne by (induction doc) auto
  ultimately show ?thesis using ne by (simp add: setProperty_def map_of_insertIndexed split: option.splits)
qed

lemma map_of_assignId:
  "map_of doc f = Some v \<Longrightarrow> f = ''_id'' \<longrightarrow> truthy v \<Longrightarrow> map_of (fst (assignId P n doc)) f = Some v"
  by (cases "f = ''_id''") (auto simp: assignId_def map_of_setProperty split: option.splits)

lemma insertChunk_single:
  "insertChunk P c m ids [d] [] s =
     (let a = assignId P (idCounter s) d;
          sA = (if snd a then s \<lparr> idCounter := Suc (idCounter s) \<rparr> else s);
          ident = idString P (fst a)
      in if length (json_stringify P (JObj (fst a))) > maxDocumentSize sA
         then (Inl (DocumentStoreError DocumentTooLarge None), commitCount m ids sA)
         else (case onInsert P (kv sA) c (cm_indexes m) (fst a) ident of
                 Inl err \<Rightarrow> (Inl (promote err), commitCount m ids sA)
               | Inr kv' \<Rightarrow>
                   (Inr [ident],
                    sA \<lparr> kv := kvPut (encodeDocKey c ident) (DocValue (jsonRoundTripProps P (fst a))) kv' \<rparr>)))"
  by (simp add: Let_def split: prod.splits sum.splits)

lemma insertChunks_single:
  "insertChunks P c m [] [d] s =
     (case insertChunk P c m [] [d] [] s of
        (Inl e, st') \<Rightarrow> (Inl e, st')
      | (Inr ids, st') \<Rightarrow>
          (Inr \<lparr> ir_insertedId = (if length ids = 1 then Some (hd ids) else None),
                 ir_insertedIds = (if length ids > 1 then Some ids else None),
                 ir_insertedCount = length ids \<rparr>,
           saveMetadata (m \<lparr> cm_documentCount := cm_documentCount m + int (length ids) \<rparr>) st'))"
proof -
  have t: "take BATCH_LIMIT [d] = [d]" and dr: "drop BATCH_LIMIT [d] = []"
    by (simp_all add: BATCH_LIMIT_def)
  show ?thesis
    apply (subst insertChunks.simps)
    apply (simp only: t dr list.simps if_False append_Nil)
    apply (subst insertChunks.simps)
    apply (simp split: prod.splits sum.splits)
    done
qed

text \<open>
  With the unique index on \<open>email\<close>, two documents whose \<open>email\<close> is \<open>null\<close> are both
  inserted: no DuplicateKey, and the \<open>documentCount\<close> is 2.
\<close>

theorem insertOp_unique_null_counterexample:
  "fst (insertOp plainPlatform ''users'' [annNull] emailStore)
     = Inr \<lparr> ir_insertedId = Some ''f'', ir_insertedIds = None, ir_insertedCount = 1 \<rparr>
   \<and> fst (insertOp plainPlatform ''users'' [bobNull] annNullStore)
     = Inr \<lparr> ir_insertedId = Some ''ff'', ir_insertedIds = None, ir_insertedCount = 1 \<rparr>
   \<and> getCollection ''users'' (snd (insertOp plainPlatform ''users'' [bobNull] annNullStore))
     = Inr (Some (usersMeta \<lparr> cm_documentCount := 2 \<rparr>))"
  by (simp add: store_defs email_defs)

text \<open>
  C3 (amended). With a unique index on field \<open>f\<close>, after a document that has its own
  value \<open>v\<close> at \<open>f\<close>, \<open>v\<close> not null (and, for \<open>f = _id\<close>, truthy, so that it is kept as
  the id), has been inserted, a second insert call of a document with the same own
  value at \<open>f\<close>, which passes sanitization, the size limit and the length cap of
  indexed strings, fails with DuplicateKey, code 11000, and leaves every row of the
  store as it was: the second document is not stored and the \<open>documentCount\<close> keeps
  its value.
\<close>

theorem insertOp_unique_duplicate:
  assumes meta: "kvGet (kv s) (encodeMetaKey c) = Some (MetaValue m)"
    and ix: "ix \<in> set (cm_indexes m)" "ix_unique ix" "ix_field ix = f"
    and v1: "map_of d1 f = Some v" and v2: "map_of d2 f = Some v"
    and nn: "v \<noteq> JNull" and tr: "f = ''_id'' \<longrightarrow> truthy v"
    and first: "insertOp P c [d1] s = (Inr r1, s1)"
    and san2: "sanitizeDocument (JObj d2) 0 = Inr ()"
    and size2: "length (json_stringify P (JObj (fst (assignId P (idCounter s1) d2)))) \<le> maxDocumentSize s1"
    and enc2: "\<forall>ix' \<in> set (cm_indexes m). \<forall>w.
                 readProperty P (JObj (fst (assignId P (idCounter s1) d2))) (ix_field ix') = Some w
                   \<longrightarrow> (\<exists>e. encodeValue P w = Inr e)"
  shows "\<exists>s2. insertOp P c [d2] s1 = (Inl (DocumentStoreError 11000 None), s2) \<and> kv s2 = kv s1"
proof -
  have val: "validateCollectionName c = Inr ()"
    using first by (auto simp: insertOp_def split: sum.splits)
  have goc: "getOrCreateCollection P c s = (Inr m, s)"
    using val meta by (simp add: getOrCreateCollection_def)
  have ic: "insertChunks P c m [] [d1] s = (Inr r1, s1)"
    using first val goc by (auto simp: insertOp_def insertInternal_def split: sum.splits)
  define a1 where "a1 = assignId P (idCounter s) d1"
  define sA where "sA = (if snd a1 then s \<lparr> idCounter := Suc (idCounter s) \<rparr> else s)"
  define id1 where "id1 = idString P (fst a1)"
  have kvA: "kv sA = kv s" by (simp add: sA_def)
  obtain kv' where oi: "onInsert P (kv s) c (cm_indexes m) (fst a1) id1 = Inr kv'"
    and s1: "s1 = saveMetadata (m \<lparr> cm_documentCount := cm_documentCount m + 1 \<rparr>)
                    (sA \<lparr> kv := kvPut (encodeDocKey c id1) (DocValue (jsonRoundTripProps P (fst a1))) kv' \<rparr>)"
    using ic unfolding insertChunks_single insertChunk_single
    by (auto simp: Let_def a1_def sA_def id1_def split: if_splits sum.splits)
  obtain puts where pl: "onInsertPlan P (kv s) c (cm_indexes m) (fst a1) id1 = Inr puts"
    and kv': "kv' = applyPuts puts (kv s)"
    using oi by (auto simp: onInsert_def split: sum.splits)
  have f1: "readProperty P (JObj (fst a1)) (ix_field ix) = Some v"
    using map_of_assignId [OF v1 tr] ix(3) by (simp add: a1_def readProperty_own)
  obtain key1 where k1: "encodeIdxKey P c (ix_field ix) v id1 = Inr key1" "key1 \<in> set puts"
    using onInsertPlan_contains [OF pl ix(1) f1 nn] by blast
  obtain ev where ev: "encodeValue P v = Inr ev" "key1 = idxPrefix c (ix_field ix) @ ev @ [CHR 0x1F] @ id1"
    using encodeIdxKey_cases [OF k1(1)] by blast
  have kvs1: "kv s1 = kvPut (encodeMetaKey (cm_name m))
                        (MetaValue (m \<lparr> cm_documentCount := cm_documentCount m + 1 \<rparr>))
                        (kvPut (encodeDocKey c id1) (DocValue (jsonRoundTripProps P (fst a1)))
                           (applyPuts puts (kv s)))"
    by (simp add: s1 saveMetadata_def kv')
  have in1: "key1 \<in> fst ` set (kv s1)"
    unfolding kvs1 keys_kvPut keys_applyPuts using k1(2) by simp
  have sw: "startsWith key1 (idxPrefix c (ix_field ix) @ ev @ [CHR 0x1F])"
    by (simp add: ev(2) startsWith_def)
  have notput: "encodeMetaKey c \<notin> set puts"
  proof
    assume "encodeMetaKey c \<in> set puts"
    then have "startsWith (encodeMetaKey c) ''idx:''" using onInsertPlan_keys [OF pl] by blast
    then show False by (simp add: startsWith_def encodeMetaKey_def)
  qed
  have "\<exists>m'. kvGet (kv s1) (encodeMetaKey c) = Some (MetaValue m') \<and> cm_indexes m' = cm_indexes m"
  proof (cases "encodeMetaKey (cm_name m) = encodeMetaKey c")
    case True
    then show ?thesis by (simp add: kvGet_def kvs1 map_of_kvPut)
  next
    case False
    have "encodeDocKey c id1 \<noteq> encodeMetaKey c"
      by (simp add: encodeDocKey_def encodeMetaKey_def)
    then have "kvGet (kv s1) (encodeMetaKey c) = kvGet (kv s) (encodeMetaKey c)"
      using False notput by (simp add: kvGet_def kvs1 map_of_kvPut map_of_applyPuts)
    then show ?thesis using meta by simp
  qed
  then obtain m' where m': "kvGet (kv s1) (encodeMetaKey c) = Some (MetaValue m')"
    "cm_indexes m' = cm_indexes m" by blast
  have goc2: "getOrCreateCollection P c s1 = (Inr m', s1)"
    using val m'(1) by (simp add: getOrCreateCollection_def)
  define a2 where "a2 = assignId P (idCounter s1) d2"
  define sB where "sB = (if snd a2 then s1 \<lparr> idCounter := Suc (idCounter s1) \<rparr> else s1)"
  define id2 where "id2 = idString P (fst a2)"
  have kvB: "kv sB = kv s1" and mxB: "maxDocumentSize sB = maxDocumentSize s1"
    by (simp_all add: sB_def)
  have f2: "readProperty P (JObj (fst a2)) (ix_field ix) = Some v"
    using map_of_assignId [OF v2 tr] ix(3) by (simp add: a2_def readProperty_own)
  have dup: "onInsertPlan P (kv s1) c (cm_indexes m') (fst a2) id2 = Inl (IndexError DuplicateKey)"
    using onInsertPlan_duplicate [OF _ ix(2) f2 nn ev(1) in1 sw, of "cm_indexes m'" id2]
      ix(1) m'(2) enc2 by (simp add: a2_def)
  have chunk2: "insertChunk P c m' [] [d2] [] s1 = (Inl (DocumentStoreError 11000 None), sB)"
    unfolding insertChunk_single
    using size2 dup
    by (simp add: Let_def a2_def [symmetric] sB_def [symmetric] id2_def [symmetric] mxB kvB
          onInsert_def promote_def commitCount_def DuplicateKey_def)
  have "insertChunks P c m' [] [d2] s1 = (Inl (DocumentStoreError 11000 None), sB)"
    unfolding insertChunks_single chunk2 by simp
  then have "insertOp P c [d2] s1 = (Inl (DocumentStoreError 11000 None), sB)"
    using val san2 goc2
    by (simp add: insertOp_def insertInternal_def del: insertChunks.simps insertChunk.simps)
  then show ?thesis using kvB by blast
qed

theorem insertOp_unique_duplicate_witness:
  "kvGet (kv emailStore) (encodeMetaKey ''users'') = Some (MetaValue usersMeta)
   \<and> emailIndex \<in> set (cm_indexes usersMeta) \<and> ix_unique emailIndex
   \<and> map_of annDoc ''email'' = Some (JStr ''a@x'') \<and> map_of bobDoc ''email'' = Some (JStr ''a@x'')
   \<and> fst (insertOp plainPlatform ''users'' [annDoc] emailStore)
       = Inr \<lparr> ir_insertedId = Some ''f'', ir_insertedIds = None, ir_insertedCount = 1 \<rparr>
   \<and> sanitizeDocument (JObj bobDoc) 0 = Inr ()
   \<and> getCollection ''users'' annStore = Inr (Some (usersMeta \<lparr> cm_documentCount := 1 \<rparr>))
   \<and> (\<exists>s2. insertOp plainPlatform ''users'' [bobDoc] annStore = (Inl (DocumentStoreError 11000 None), s2)
            \<and> kv s2 = kv annStore)"
proof -
  have h1: "kvGet (kv emailStore) (encodeMetaKey ''users'') = Some (MetaValue usersMeta)"
    by (simp add: store_defs email_defs)
  have h2: "emailIndex \<in> set (cm_indexes usersMeta)" "ix_unique emailIndex" "ix_field emailIndex = ''email''"
    by (simp_all add: email_defs)
  have h3: "map_of annDoc ''email'' = Some (JStr ''a@x'')" "map_of bobDoc ''email'' = Some (JStr ''a@x'')"
    by (simp_all add: email_defs)
  have h4: "JStr ''a@x'' \<noteq> JNull" "''email'' = ''_id'' \<longrightarrow> truthy (JStr ''a@x'')"
    by simp_all
  have h5: "insertOp plainPlatform ''users'' [annDoc] emailStore
              = (Inr \<lparr> ir_insertedId = Some ''f'', ir_insertedIds = None, ir_insertedCount = 1 \<rparr>, annStore)"
    by (simp add: store_defs email_defs)
  have h6: "sanitizeDocument (JObj bobDoc) 0 = Inr ()"
    by (simp add: store_defs email_defs)
  have a2: "fst (assignId plainPlatform (idCounter annStore) bobDoc) = bobDoc @ [(''_id'', JStr ''ff'')]"
    by (simp add: store_defs email_defs)
  have h7: "length (json_stringify plainPlatform (JObj (fst (assignId plainPlatform (idCounter annStore) bobDoc))))
              \<le> maxDocumentSize annStore"
    unfolding a2 by (simp add: store_defs email_defs)
  have h8: "\<forall>ix' \<in> set (cm_indexes usersMeta). \<forall>w.
              readProperty plainPlatform (JObj (fst (assignId plainPlatform (idCounter annStore) bobDoc)))
                (ix_field ix') = Some w
                \<longrightarrow> (\<exists>e. encodeValue plainPlatform w = Inr e)"
    unfolding a2 by (auto simp: email_defs readProperty_def getProperty_def ownEntries_def)
  have h9: "getCollection ''users'' annStore = Inr (Some (usersMeta \<lparr> cm_documentCount := 1 \<rparr>))"
    by (simp add: store_defs email_defs)
  show ?thesis
    using insertOp_unique_duplicate [OF h1 h2 h3 h4 h5 h6 h7 h8] h1 h2 h3 h5 h6 h9
    by simp
qed

end
